theory Spec2Isabelle
  imports Complex_Main "HOL-Library.Sublist" "HOL-Library.Product_Lexorder"
begin

section \<open>Python values used by predictor.py\<close>

text \<open>
  The exceptions that the modelled parts of \<^verbatim>\<open>predictor.py\<close> can raise. A function
  that can raise returns \<open>error + 'a\<close>, with \<open>Inl\<close> for the exception.
\<close>

datatype error =
    NotImplementedError
  | KeyError
  | TypeError
  | IndexError
  | NameError
  | ZeroDivisionError
  | ValueError

text \<open>
  A Python \<^verbatim>\<open>dict\<close> is an association list in insertion order, with one entry per
  key. \<open>dset\<close> is the assignment \<^verbatim>\<open>d[k] = v\<close>: an existing key keeps its place, a new
  key goes last.
\<close>

type_synonym ('k, 'v) dict = "('k \<times> 'v) list"

fun dset :: "('k, 'v) dict \<Rightarrow> 'k \<Rightarrow> 'v \<Rightarrow> ('k, 'v) dict" where
  "dset [] k v = [(k, v)]"
| "dset ((k', w) # d) k v = (if k' = k then (k', v) # d else (k', w) # dset d k v)"

text \<open>
  \<^verbatim>\<open>defaultdict(int)\<close> and \<^verbatim>\<open>defaultdict(float)\<close>: reading an absent key gives
  zero (\<open>dget\<close>), and \<^verbatim>\<open>d[k] += v\<close> (\<open>dadd\<close>) starts an absent key from zero.
  \<^verbatim>\<open>d.values()\<close> is \<open>dvalues\<close>, \<^verbatim>\<open>d.clear()\<close> leaves the empty list.
\<close>

definition dget :: "('k, 'v::zero) dict \<Rightarrow> 'k \<Rightarrow> 'v" where
  "dget d k = (case map_of d k of None \<Rightarrow> 0 | Some v \<Rightarrow> v)"

fun dadd :: "('k, 'v::{zero,plus}) dict \<Rightarrow> 'k \<Rightarrow> 'v \<Rightarrow> ('k, 'v) dict" where
  "dadd [] k v = [(k, 0 + v)]"
| "dadd ((k', w) # d) k v = (if k' = k then (k', w + v) # d else (k', w) # dadd d k v)"

definition dvalues :: "('k, 'v) dict \<Rightarrow> 'v list" where
  "dvalues d = map snd d"

text \<open>Python's \<^verbatim>\<open>sub in s\<close> on strings: \<open>sub\<close> occurs in \<open>s\<close> as a contiguous run.\<close>

fun str_in :: "string \<Rightarrow> string \<Rightarrow> bool" where
  "str_in sub [] = (sub = [])"
| "str_in sub (c # s) = (prefix sub (c # s) \<or> str_in sub s)"

text \<open>\<^verbatim>\<open>s.startswith(p)\<close>.\<close>

definition startswith :: "string \<Rightarrow> string \<Rightarrow> bool" where
  "startswith s p = prefix p s"

section \<open>Games and the predictor's state\<close>

text \<open>
  The fields of \<^verbatim>\<open>Game\<close> (declared in \<^verbatim>\<open>game.py\<close>) that \<^verbatim>\<open>predictor.py\<close> reads.
  \<open>rosters\<close> and \<open>full_rosters\<close> are \<^verbatim>\<open>None\<close> when a match is built without them.
  \<open>game_score\<close>, \<open>game_stage\<close> and \<open>game_match_id\<close> are \<^verbatim>\<open>game.score\<close>,
  \<^verbatim>\<open>game.stage\<close> and \<^verbatim>\<open>game.match_id\<close>; the prefix keeps them apart from the fields
  of the same names in the predictor.
\<close>

type_synonym team = string
type_synonym roster = "string list"

record game =
  teams :: "team \<times> team"
  rosters :: "(roster \<times> roster) option"
  full_rosters :: "(roster \<times> roster) option"
  game_score :: "int \<times> int"
  drawable :: bool
  game_stage :: string
  game_match_id :: int
  match_format :: string

text \<open>
  The attributes set by \<^verbatim>\<open>Predictor.__init__\<close>. A subclass adds its own fields by
  extending the record. \<open>score\<close> is \<^verbatim>\<open>None\<close> until the first match is opened;
  \<open>scores[match_id]\<close> is the same dictionary object as \<open>score\<close>, so the model
  writes both whenever the code writes through \<^verbatim>\<open>self.score\<close>.
\<close>

record predictor =
  roster_queue_size :: nat
  roster_queues :: "team \<Rightarrow> roster list"
  last_full_rosters :: "team \<Rightarrow> roster"
  wins :: "(team, int) dict"
  losses :: "(team, int) dict"
  map_diffs :: "(team, int) dict"
  head_to_head_diffs :: "(team \<times> team, int) dict"
  head_to_head_map_diffs :: "(team \<times> team, int) dict"
  stage :: "string option"
  base_stage :: "string option"
  stage_wins :: "(team, int) dict"
  stage_losses :: "(team, int) dict"
  stage_map_diffs :: "(team, int) dict"
  stage_head_to_head_map_diffs :: "(team \<times> team, int) dict"
  stage_title_wins :: "(team, int) dict"
  stage_title_losses :: "(team, int) dict"
  playoff_wins :: "(team, int) dict"
  playoff_losses :: "(team, int) dict"
  match_id :: "int option"
  score :: "(team, int) dict option"
  scores :: "int \<rightharpoonup> (team, int) dict"
  match_history :: "string option \<Rightarrow> team \<Rightarrow> int list"
  expected_draws :: real
  real_draws :: real
  points :: "real list"
  corrects :: "bool list"

definition init_predictor :: "nat \<Rightarrow> predictor" where
  "init_predictor n =
    \<lparr> roster_queue_size = n, roster_queues = (\<lambda>_. []), last_full_rosters = (\<lambda>_. []),
      wins = [], losses = [], map_diffs = [], head_to_head_diffs = [],
      head_to_head_map_diffs = [],
      stage = None, base_stage = None,
      stage_wins = [], stage_losses = [], stage_map_diffs = [],
      stage_head_to_head_map_diffs = [], stage_title_wins = [], stage_title_losses = [],
      playoff_wins = [], playoff_losses = [],
      match_id = None, score = None, scores = Map.empty, match_history = (\<lambda>_ _. []),
      expected_draws = 0, real_draws = 0, points = [], corrects = [] \<rparr>"

section \<open>The standings tracker\<close>

text \<open>\<^verbatim>\<open>Predictor.stage_finished\<close>.\<close>

definition stage_finished :: "'a predictor_scheme \<Rightarrow> bool" where
  "stage_finished s = (sum_list (dvalues (stage_title_losses s)) = 3)"

text \<open>\<^verbatim>\<open>Predictor._update_stage\<close>.\<close>

definition update_stage :: "string \<Rightarrow> 'a predictor_scheme \<Rightarrow> 'a predictor_scheme" where
  "update_stage stg s =
    (if Some stg \<noteq> stage s then
       (if (case stage s of None \<Rightarrow> False | Some cur \<Rightarrow> startswith stg cur) then
          s\<lparr>base_stage := stage s, stage := Some stg\<rparr>
        else
          s\<lparr>base_stage := Some stg, stage := Some stg,
            stage_wins := [], stage_losses := [], stage_map_diffs := [],
            stage_head_to_head_map_diffs := [],
            stage_title_wins := [], stage_title_losses := []\<rparr>)
     else s)"

text \<open>\<^verbatim>\<open>Predictor._update_match_ids\<close>.\<close>

definition append_history :: "team \<Rightarrow> int \<Rightarrow> 'a predictor_scheme \<Rightarrow> 'a predictor_scheme" where
  "append_history t m s =
    s\<lparr>match_history :=
        (match_history s)(stage s := (match_history s (stage s))(t := match_history s (stage s) t @ [m]))\<rparr>"

definition update_match_ids ::
  "int \<Rightarrow> team \<times> team \<Rightarrow> 'a predictor_scheme \<Rightarrow> 'a predictor_scheme" where
  "update_match_ids m ts s =
    (if Some m \<noteq> match_id s then
       (let sc = dset (dset [] (fst ts) 0) (snd ts) 0;
            s1 = s\<lparr>match_id := Some m, score := Some sc, scores := (scores s)(m \<mapsto> sc)\<rparr>
        in append_history (snd ts) m (append_history (fst ts) m s1))
     else s)"

text \<open>
  \<^verbatim>\<open>Predictor._update_standings\<close>, in the order of the source: the map
  differentials of a regular game, then the match result (a credit when the tallies
  were level, a reversal when the winner was one behind), then the tally.
\<close>

definition credit_map_diffs :: "team \<Rightarrow> team \<Rightarrow> 'a predictor_scheme \<Rightarrow> 'a predictor_scheme" where
  "credit_map_diffs winner loser s =
    s\<lparr>map_diffs := dadd (dadd (map_diffs s) winner 1) loser (- 1),
      head_to_head_map_diffs :=
        dadd (dadd (head_to_head_map_diffs s) (winner, loser) 1) (loser, winner) (- 1),
      stage_map_diffs := dadd (dadd (stage_map_diffs s) winner 1) loser (- 1),
      stage_head_to_head_map_diffs :=
        dadd (dadd (stage_head_to_head_map_diffs s) (winner, loser) 1) (loser, winner) (- 1)\<rparr>"

definition credit_match ::
  "bool \<Rightarrow> bool \<Rightarrow> bool \<Rightarrow> team \<Rightarrow> team \<Rightarrow> 'a predictor_scheme \<Rightarrow> 'a predictor_scheme" where
  "credit_match is_regular is_title is_playoff winner loser s =
    (if is_regular then
       s\<lparr>wins := dadd (wins s) winner 1,
         losses := dadd (losses s) loser 1,
         head_to_head_diffs :=
           dadd (dadd (head_to_head_diffs s) (winner, loser) 1) (loser, winner) (- 1),
         stage_wins := dadd (stage_wins s) winner 1,
         stage_losses := dadd (stage_losses s) loser 1\<rparr>
     else if is_title then
       s\<lparr>stage_title_wins := dadd (stage_title_wins s) winner 1,
         stage_title_losses := dadd (stage_title_losses s) loser 1\<rparr>
     else if is_playoff then
       s\<lparr>playoff_wins := dadd (playoff_wins s) winner 1,
         playoff_losses := dadd (playoff_losses s) loser 1\<rparr>
     else s)"

definition reverse_match ::
  "bool \<Rightarrow> bool \<Rightarrow> bool \<Rightarrow> team \<Rightarrow> team \<Rightarrow> 'a predictor_scheme \<Rightarrow> 'a predictor_scheme" where
  "reverse_match is_regular is_title is_playoff winner loser s =
    (if is_regular then
       s\<lparr>wins := dadd (wins s) loser (- 1),
         losses := dadd (losses s) winner (- 1),
         head_to_head_diffs :=
           dadd (dadd (head_to_head_diffs s) (winner, loser) 1) (loser, winner) (- 1),
         stage_wins := dadd (stage_wins s) loser (- 1),
         stage_losses := dadd (stage_losses s) winner (- 1)\<rparr>
     else if is_title then
       s\<lparr>stage_title_wins := dadd (stage_title_wins s) loser (- 1),
         stage_title_losses := dadd (stage_title_losses s) winner (- 1)\<rparr>
     else if is_playoff then
       s\<lparr>playoff_wins := dadd (playoff_wins s) loser (- 1),
         playoff_losses := dadd (playoff_losses s) winner (- 1)\<rparr>
     else s)"

definition bump_score :: "team \<Rightarrow> 'a predictor_scheme \<Rightarrow> 'a predictor_scheme" where
  "bump_score winner s =
    (case score s of
       None \<Rightarrow> s
     | Some sc \<Rightarrow>
         s\<lparr>score := Some (dadd sc winner 1),
           scores := (case match_id s of
                        None \<Rightarrow> scores s
                      | Some m \<Rightarrow> (scores s)(m \<mapsto> dadd sc winner 1))\<rparr>)"

definition handle_result ::
  "game \<Rightarrow> team \<Rightarrow> team \<Rightarrow> 'a predictor_scheme \<Rightarrow> error + 'a predictor_scheme" where
  "handle_result g winner loser s =
    (let is_regular = (match_format g = ''regular'');
         is_title = str_in ''Title'' (game_stage g);
         is_playoff = (match_format g = ''playoff'');
         s1 = (if is_regular then credit_map_diffs winner loser s else s)
     in case score s1 of
          None \<Rightarrow> Inl TypeError
        | Some sc \<Rightarrow>
            (case map_of sc winner of
               None \<Rightarrow> Inl KeyError
             | Some sw \<Rightarrow>
                 (case map_of sc loser of
                    None \<Rightarrow> Inl KeyError
                  | Some sl \<Rightarrow>
                      Inr (bump_score winner
                        (if sw = sl then
                           credit_match is_regular is_title is_playoff winner loser s1
                         else if sw = sl - 1 then
                           reverse_match is_regular is_title is_playoff winner loser s1
                         else s1)))))"

text \<open>
  The body of \<^verbatim>\<open>_update_standings\<close> after its two calls: a drawn game changes
  nothing more.
\<close>

definition record_result :: "game \<Rightarrow> 'a predictor_scheme \<Rightarrow> error + 'a predictor_scheme" where
  "record_result g s =
    (if fst (game_score g) \<noteq> snd (game_score g) then
       (if fst (game_score g) > snd (game_score g) then
          handle_result g (fst (teams g)) (snd (teams g)) s
        else
          handle_result g (snd (teams g)) (fst (teams g)) s)
     else Inr s)"

definition update_standings :: "game \<Rightarrow> 'a predictor_scheme \<Rightarrow> error + 'a predictor_scheme" where
  "update_standings g s =
    record_result g
      (update_match_ids (game_match_id g) (teams g) (update_stage (game_stage g) s))"

text \<open>
  A match's games fed to \<^verbatim>\<open>_update_standings\<close> one at a time, as \<^verbatim>\<open>train_games\<close>
  feeds them; the first exception ends the run.
\<close>

fun update_standings_games ::
  "game list \<Rightarrow> 'a predictor_scheme \<Rightarrow> error + 'a predictor_scheme" where
  "update_standings_games [] s = Inr s"
| "update_standings_games (g # gs) s =
     (case update_standings g s of Inl e \<Rightarrow> Inl e | Inr s' \<Rightarrow> update_standings_games gs s')"

text \<open>
  Entering a new stage, as \<^verbatim>\<open>_update_stage\<close> decides it: the stage differs from the
  current one and does not extend its name.
\<close>

definition new_stage :: "'a predictor_scheme \<Rightarrow> string \<Rightarrow> bool" where
  "new_stage s stg =
    (Some stg \<noteq> stage s \<and> \<not> (case stage s of None \<Rightarrow> False | Some cur \<Rightarrow> startswith stg cur))"

text \<open>
  Opening a match, as \<^verbatim>\<open>_update_match_ids\<close> does it for a match id that is not the
  current one: a tally of zero for the two teams, stored under the match id, and the id
  appended to each team's history in the current stage. No other field changes.
\<close>

definition register_match :: "int \<Rightarrow> team \<times> team \<Rightarrow> 'a predictor_scheme \<Rightarrow> 'a predictor_scheme" where
  "register_match m ts s =
    (let tally = dset (dset [] (fst ts) 0) (snd ts) 0;
         h = match_history s (stage s);
         h1 = h(fst ts := h (fst ts) @ [m]);
         h2 = h1(snd ts := h1 (snd ts) @ [m])
     in s\<lparr>match_id := Some m, score := Some tally, scores := (scores s)(m \<mapsto> tally),
          match_history := (match_history s)(stage s := h2)\<rparr>)"

section \<open>The score distribution of a match\<close>

text \<open>
  The abstract method \<^verbatim>\<open>Predictor.predict(teams, rosters, full_rosters, drawable)\<close>:
  each predictor class supplies its own, so the functions of the base class take it as
  an argument. Python's floats are modelled as real numbers.
\<close>

type_synonym 'a predict_method =
  "'a predictor_scheme \<Rightarrow> team \<times> team \<Rightarrow> (roster \<times> roster) option \<Rightarrow>
   (roster \<times> roster) option \<Rightarrow> bool \<Rightarrow> error + real \<times> real"

type_synonym pscores = "(int \<times> int, real) dict"

text \<open>
  The body of the loop over \<^verbatim>\<open>p_scores.items()\<close> for one scheduled game: the pair is
  \<^verbatim>\<open>(new_p_scores, p_finished_scores)\<close>.
\<close>

definition fan_out ::
  "bool \<Rightarrow> int \<Rightarrow> real \<Rightarrow> real \<Rightarrow> real \<Rightarrow> (int \<times> int) \<times> real \<Rightarrow>
   pscores \<times> pscores \<Rightarrow> pscores \<times> pscores" where
  "fan_out is_drawable max_wins p_win p_draw p_loss item acc =
    (let score1 = fst (fst item); score2 = snd (fst item); p = snd item;
         acc1 = (if score1 + 1 = max_wins
                 then (fst acc, dadd (snd acc) (score1 + 1, score2) (p * p_win))
                 else (dadd (fst acc) (score1 + 1, score2) (p * p_win), snd acc));
         acc2 = (if score2 + 1 = max_wins
                 then (fst acc1, dadd (snd acc1) (score1, score2 + 1) (p * p_loss))
                 else (dadd (fst acc1) (score1, score2 + 1) (p * p_loss), snd acc1))
     in if is_drawable then (dadd (fst acc2) (score1, score2) (p * p_draw), snd acc2)
        else acc2)"

text \<open>
  One turn of the loop over \<^verbatim>\<open>drawables\<close>. The loop's state is \<^verbatim>\<open>p_scores\<close>,
  \<^verbatim>\<open>p_finished_scores\<close> and the variable \<^verbatim>\<open>p_loss\<close>, which is unbound before the
  first turn and keeps the last game's value after the loop.
\<close>

definition play_game ::
  "real \<times> real \<Rightarrow> real \<times> real \<Rightarrow> int \<Rightarrow> bool \<Rightarrow>
   pscores \<times> pscores \<times> real option \<Rightarrow> pscores \<times> pscores \<times> real option" where
  "play_game p_undrawable p_drawable max_wins is_drawable st =
    (let p_win = fst (if is_drawable then p_drawable else p_undrawable);
         p_draw = snd (if is_drawable then p_drawable else p_undrawable);
         p_loss = 1 - p_win - p_draw;
         acc = fold (fan_out is_drawable max_wins p_win p_draw p_loss) (fst st) ([], fst (snd st))
     in (fst acc, snd acc, Some p_loss))"

text \<open>The tie-breaker pass: a level score is split, any other score is copied.\<close>

definition tie_break :: "real \<Rightarrow> real \<Rightarrow> (int \<times> int) \<times> real \<Rightarrow> pscores \<Rightarrow> pscores" where
  "tie_break p_win p_loss item new_p_scores =
    (let score1 = fst (fst item); score2 = snd (fst item); p = snd item
     in if score1 = score2
        then dadd (dadd new_p_scores (score1 + 1, score2) (p * p_win)) (score1, score2 + 1) (p * p_loss)
        else dadd new_p_scores (score1, score2) p)"

text \<open>
  The rest of \<^verbatim>\<open>_predict_bo_score\<close> once both predictions are known. Reading
  \<^verbatim>\<open>p_loss\<close> in the tie-breaker raises when no game was scheduled and a level score
  is left.
\<close>

definition bo_score ::
  "real \<times> real \<Rightarrow> real \<times> real \<Rightarrow> bool list \<Rightarrow> int \<Rightarrow> error + pscores" where
  "bo_score p_undrawable p_drawable drawables max_wins =
    (let st = fold (play_game p_undrawable p_drawable max_wins) drawables
                ([((0, 0), 1)], [], None);
         p_scores = fst st; p_finished_scores = fst (snd st); p_win = fst p_undrawable
     in case snd (snd st) of
          None \<Rightarrow>
            (if list_ex (\<lambda>item. fst (fst item) = snd (fst item)) p_scores then Inl NameError
             else Inr (fold (\<lambda>item d. dadd d (fst item) (snd item)) p_finished_scores
                        (fold (tie_break p_win 0) p_scores [])))
        | Some p_loss \<Rightarrow>
            Inr (fold (\<lambda>item d. dadd d (fst item) (snd item)) p_finished_scores
                  (fold (tie_break p_win p_loss) p_scores [])))"

text \<open>\<^verbatim>\<open>Predictor._predict_bo_score\<close>: the undrawable prediction is asked for first.\<close>

definition predict_bo_score ::
  "'a predict_method \<Rightarrow> 'a predictor_scheme \<Rightarrow> team \<times> team \<Rightarrow> (roster \<times> roster) option \<Rightarrow>
   (roster \<times> roster) option \<Rightarrow> bool list \<Rightarrow> int \<Rightarrow> error + pscores" where
  "predict_bo_score predict s ts rs frs drawables max_wins =
    (case predict s ts rs frs False of
       Inl e \<Rightarrow> Inl e
     | Inr p_undrawable \<Rightarrow>
         (case predict s ts rs frs True of
            Inl e \<Rightarrow> Inl e
          | Inr p_drawable \<Rightarrow> bo_score p_undrawable p_drawable drawables max_wins))"

text \<open>
  \<^verbatim>\<open>Predictor.predict_match_score\<close>. The first test is membership in a tuple of two
  strings; \<^verbatim>\<open>('best-of-5')\<close> and \<^verbatim>\<open>('best-of-7')\<close> are strings, not tuples, so the
  other two tests are Python's substring test.
\<close>

definition predict_match_score ::
  "'a predict_method \<Rightarrow> 'a predictor_scheme \<Rightarrow> game \<Rightarrow> error + pscores" where
  "predict_match_score predict s m =
    (if match_format m = ''preseason'' \<or> match_format m = ''regular'' then
       predict_bo_score predict s (teams m) (rosters m) (full_rosters m)
         [True, False, True, False] 4
     else if str_in (match_format m) ''best-of-5'' then
       predict_bo_score predict s (teams m) (rosters m) (full_rosters m)
         [False, False, False, False, False] 3
     else if str_in (match_format m) ''best-of-7'' then
       predict_bo_score predict s (teams m) (rosters m) (full_rosters m)
         [False, False, False, False, False, False, False] 4
     else Inl NotImplementedError)"

text \<open>The total probability of a score distribution.\<close>

definition total_mass :: "pscores \<Rightarrow> real" where
  "total_mass d = sum_list (dvalues d)"

text \<open>
  What the proof of mass conservation carries through the loops: a distribution with no
  negative value (\<open>nonneg\<close>); a pair of predictions that are probabilities, the
  undrawable one with draw probability zero (\<open>fair\<close>); and a loop state whose live and
  finished scores are non-negative and sum to one (\<open>live\<close>).
\<close>

definition nonneg :: "pscores \<Rightarrow> bool" where
  "nonneg d = list_all (\<lambda>v. 0 \<le> v) (dvalues d)"

definition fair :: "real \<times> real \<Rightarrow> real \<times> real \<Rightarrow> bool" where
  "fair p_undrawable p_drawable =
    (0 \<le> fst p_undrawable \<and> fst p_undrawable \<le> 1 \<and> snd p_undrawable = 0 \<and>
     0 \<le> fst p_drawable \<and> 0 \<le> snd p_drawable \<and> fst p_drawable + snd p_drawable \<le> 1)"

definition live :: "pscores \<times> pscores \<times> real option \<Rightarrow> bool" where
  "live st = (nonneg (fst st) \<and> nonneg (fst (snd st)) \<and>
              total_mass (fst st) + total_mass (fst (snd st)) = 1)"

section \<open>Evaluation and training\<close>

text \<open>
  \<^verbatim>\<open>Predictor.evaluate\<close>. \<^verbatim>\<open>math.log\<close> raises \<^verbatim>\<open>ValueError\<close> on an argument that
  is not positive.
\<close>

definition evaluate ::
  "'a predict_method \<Rightarrow> 'a predictor_scheme \<Rightarrow> game \<Rightarrow> error + real \<times> bool" where
  "evaluate predict s g =
    (if fst (game_score g) = snd (game_score g) then Inr (0, False)
     else
       (case predict s (teams g) (rosters g) None False of
          Inl e \<Rightarrow> Inl e
        | Inr pr \<Rightarrow>
            (let p_win = max 0 (min (fst pr) 1);
                 p_draw = max 0 (min (snd pr) 1);
                 p_loss = 1 - p_win - p_draw;
                 p = (if fst (game_score g) > snd (game_score g) then p_win else p_loss);
                 correct = (if fst (game_score g) > snd (game_score g)
                            then p_win > p_loss else p_win < p_loss)
             in if 2 * p \<le> 0 then Inl ValueError else Inr (ln (2 * p), correct))))"

text \<open>
  \<^verbatim>\<open>Predictor._update_rosters\<close>: \<^verbatim>\<open>appendleft\<close> on a deque of bounded length drops
  the oldest roster once the deque is full. \<^verbatim>\<open>zip\<close> raises on a roster pair that is
  \<^verbatim>\<open>None\<close>.
\<close>

definition record_roster ::
  "team \<Rightarrow> roster \<Rightarrow> roster \<Rightarrow> 'a predictor_scheme \<Rightarrow> 'a predictor_scheme" where
  "record_roster t r fr s =
    s\<lparr>roster_queues := (roster_queues s)(t := take (roster_queue_size s) (r # roster_queues s t)),
      last_full_rosters := (last_full_rosters s)(t := fr)\<rparr>"

definition update_rosters :: "game \<Rightarrow> 'a predictor_scheme \<Rightarrow> error + 'a predictor_scheme" where
  "update_rosters g s =
    (case rosters g of
       None \<Rightarrow> Inl TypeError
     | Some rs \<Rightarrow>
         (case full_rosters g of
            None \<Rightarrow> Inl TypeError
          | Some frs \<Rightarrow>
              Inr (record_roster (snd (teams g)) (snd rs) (snd frs)
                    (record_roster (fst (teams g)) (fst rs) (fst frs) s))))"

text \<open>\<^verbatim>\<open>Predictor._update_draws\<close>.\<close>

definition update_draws ::
  "'a predict_method \<Rightarrow> game \<Rightarrow> 'a predictor_scheme \<Rightarrow> error + 'a predictor_scheme" where
  "update_draws predict g s =
    (case (if drawable g
           then (case predict s (teams g) (rosters g) None True of
                   Inl e \<Rightarrow> Inl e
                 | Inr pr \<Rightarrow> Inr (s\<lparr>expected_draws := expected_draws s + snd pr\<rparr>))
           else Inr s) of
       Inl e \<Rightarrow> Inl e
     | Inr s1 \<Rightarrow>
         Inr (if fst (game_score g) = snd (game_score g)
              then s1\<lparr>real_draws := real_draws s1 + 1\<rparr> else s1))"

text \<open>
  \<^verbatim>\<open>Predictor.train\<close>. \<open>train_model\<close> is the abstract method \<^verbatim>\<open>_train\<close>.
  \<open>record_point\<close> is the two \<^verbatim>\<open>append\<close> calls, \<open>train_updates\<close> the four updates
  that follow them.
\<close>

definition record_point :: "real \<Rightarrow> bool \<Rightarrow> 'a predictor_scheme \<Rightarrow> 'a predictor_scheme" where
  "record_point point correct s =
    s\<lparr>points := points s @ [point], corrects := corrects s @ [correct]\<rparr>"

definition train_updates ::
  "'a predict_method \<Rightarrow> ('a predictor_scheme \<Rightarrow> game \<Rightarrow> error + 'a predictor_scheme) \<Rightarrow>
   game \<Rightarrow> 'a predictor_scheme \<Rightarrow> error + 'a predictor_scheme" where
  "train_updates predict train_model g s =
    (case update_rosters g s of
       Inl e \<Rightarrow> Inl e
     | Inr s1 \<Rightarrow>
         (case update_standings g s1 of
            Inl e \<Rightarrow> Inl e
          | Inr s2 \<Rightarrow>
              (case update_draws predict g s2 of
                 Inl e \<Rightarrow> Inl e
               | Inr s3 \<Rightarrow> train_model s3 g)))"

definition train ::
  "'a predict_method \<Rightarrow> ('a predictor_scheme \<Rightarrow> game \<Rightarrow> error + 'a predictor_scheme) \<Rightarrow>
   'a predictor_scheme \<Rightarrow> game \<Rightarrow> error + 'a predictor_scheme \<times> real" where
  "train predict train_model s g =
    (case evaluate predict s g of
       Inl e \<Rightarrow> Inl e
     | Inr pc \<Rightarrow>
         (case train_updates predict train_model g (record_point (fst pc) (snd pc) s) of
            Inl e \<Rightarrow> Inl e
          | Inr s' \<Rightarrow> Inr (s', fst pc)))"

section \<open>The predictor classes\<close>

text \<open>
  \<^verbatim>\<open>SimplePredictor\<close>: the fields \<^verbatim>\<open>alpha\<close> and \<^verbatim>\<open>beta\<close>, and its \<^verbatim>\<open>predict\<close>.
\<close>

record simple_predictor = predictor +
  alpha :: real
  beta :: real

definition simple_predict :: "'a simple_predictor_ext predict_method" where
  "simple_predict s ts rs frs is_drawable =
    (let diff1 = dget (map_diffs s) (fst ts); diff2 = dget (map_diffs s) (snd ts)
     in Inr (if diff1 > diff2 then 1 / 2 + alpha s
             else if diff1 = diff2 then
               (let rec = dget (head_to_head_map_diffs s) ts
                in if rec > 0 then 1 / 2 + beta s
                   else if rec = 0 then 1 / 2
                   else 1 / 2 - beta s)
             else 1 / 2 - alpha s, 0))"

text \<open>
  \<^verbatim>\<open>TrueSkillPredictor\<close>. A \<open>rating\<close> is the package's \<^verbatim>\<open>Rating\<close> (\<^verbatim>\<open>mu\<close>,
  \<^verbatim>\<open>sigma\<close>); an \<open>env\<close> is its \<^verbatim>\<open>TrueSkill\<close> environment with the Gaussian
  distribution function \<^verbatim>\<open>env.cdf\<close> it carries. The package itself is not part of the
  repository: \<open>env_cdf\<close> and the function \<^verbatim>\<open>calc_draw_margin\<close> are arguments of
  the model.
\<close>

record rating =
  mu :: real
  sigma :: real

record env =
  env_mu :: real
  env_sigma :: real
  env_beta :: real
  env_tau :: real
  env_draw_probability :: real
  env_cdf :: "real \<Rightarrow> real"

record trueskill_predictor = predictor +
  env_drawable :: env
  env_undrawable :: env
  ratings :: "(string, rating) dict"

text \<open>
  \<^verbatim>\<open>self.ratings[name]\<close>: the jar is a \<^verbatim>\<open>defaultdict\<close> whose default is
  \<^verbatim>\<open>env_drawable.create_rating()\<close>.
\<close>

definition ratings_get :: "'a trueskill_predictor_scheme \<Rightarrow> string \<Rightarrow> rating" where
  "ratings_get s name =
    (case map_of (ratings s) name of
       None \<Rightarrow> \<lparr>mu = env_mu (env_drawable s), sigma = env_sigma (env_drawable s)\<rparr>
     | Some r \<Rightarrow> r)"

text \<open>\<^verbatim>\<open>TrueSkillPredictor._teams_ratings\<close>.\<close>

definition teams_ratings ::
  "'a trueskill_predictor_scheme \<Rightarrow> team \<times> team \<Rightarrow> rating list \<times> rating list" where
  "teams_ratings s ts = ([ratings_get s (fst ts)], [ratings_get s (snd ts)])"

text \<open>
  The body of \<^verbatim>\<open>TrueSkillPredictor.predict\<close> from the two rating lists on. A float
  division by zero raises \<^verbatim>\<open>ZeroDivisionError\<close>.
\<close>

definition predict_ratings ::
  "(real \<Rightarrow> nat \<Rightarrow> env \<Rightarrow> real) \<Rightarrow> env \<Rightarrow> rating list \<Rightarrow> rating list \<Rightarrow> error + real \<times> real" where
  "predict_ratings calc_draw_margin e team1_ratings team2_ratings =
    (let size = length team1_ratings + length team2_ratings;
         delta_mu = sum_list (map mu team1_ratings) - sum_list (map mu team2_ratings);
         draw_margin = calc_draw_margin (env_draw_probability e) size e;
         sum_sigma = sum_list (map (\<lambda>r. (sigma r)\<^sup>2) (team1_ratings @ team2_ratings));
         denom = sqrt (real size * (env_beta e)\<^sup>2 + sum_sigma)
     in if denom = 0 then Inl ZeroDivisionError
        else
          (let p_win = env_cdf e ((delta_mu - draw_margin) / denom);
               p_not_loss = env_cdf e ((delta_mu + draw_margin) / denom)
           in Inr (p_win, p_not_loss - p_win)))"

definition trueskill_predict ::
  "(real \<Rightarrow> nat \<Rightarrow> env \<Rightarrow> real) \<Rightarrow> 'a trueskill_predictor_ext predict_method" where
  "trueskill_predict calc_draw_margin s ts rs frs is_drawable =
    predict_ratings calc_draw_margin
      (if is_drawable then env_drawable s else env_undrawable s)
      (fst (teams_ratings s ts)) (snd (teams_ratings s ts))"

text \<open>\<^verbatim>\<open>SimplePredictor(alpha, beta, roster_queue_size)\<close> as its constructor leaves it.\<close>

definition init_simple_predictor :: "nat \<Rightarrow> real \<Rightarrow> real \<Rightarrow> simple_predictor" where
  "init_simple_predictor n a b = predictor.extend (init_predictor n) (simple_predictor.fields a b)"

text \<open>
  \<^verbatim>\<open>TrueSkillPredictor(mu, sigma, beta, tau, draw_probability)\<close> as its constructor
  leaves it: two environments that differ in the draw probability only, and an empty
  jar of ratings. \<open>cdf\<close> is the distribution function that the package gives both
  environments.
\<close>

definition init_trueskill_predictor ::
  "nat \<Rightarrow> real \<Rightarrow> real \<Rightarrow> real \<Rightarrow> real \<Rightarrow> real \<Rightarrow> (real \<Rightarrow> real) \<Rightarrow> trueskill_predictor" where
  "init_trueskill_predictor n m sg bt ta dp cdf =
    predictor.extend (init_predictor n)
      (trueskill_predictor.fields
        \<lparr>env_mu = m, env_sigma = sg, env_beta = bt, env_tau = ta, env_draw_probability = dp,
         env_cdf = cdf\<rparr>
        \<lparr>env_mu = m, env_sigma = sg, env_beta = bt, env_tau = ta, env_draw_probability = 0,
         env_cdf = cdf\<rparr>
        [])"

section \<open>Stage predictions\<close>

text \<open>
  A probability returned by \<^verbatim>\<open>predict_stage\<close> is a float, or a Python boolean once
  the outcome is certain.
\<close>

datatype prob = Prob real | Flag bool

text \<open>The dictionary comprehension \<^verbatim>\<open>{k: f(k) for k in ks}\<close>.\<close>

definition dict_of :: "('k \<Rightarrow> 'v) \<Rightarrow> 'k list \<Rightarrow> ('k, 'v) dict" where
  "dict_of f ks = fold (\<lambda>k d. dset d k (f k)) ks []"

definition stage_standing :: "'a predictor_scheme \<Rightarrow> team \<Rightarrow> int \<times> int" where
  "stage_standing s t = (dget (stage_wins s) t, dget (stage_map_diffs s) t)"

text \<open>
  The loop over the remaining matches: for each team of a match, \<^verbatim>\<open>min_wins\<close> loses
  four maps and \<^verbatim>\<open>max_wins\<close> gains a win and four maps. A team that is not a key
  raises \<^verbatim>\<open>KeyError\<close>. The pair is \<^verbatim>\<open>(min_wins, max_wins)\<close>.
\<close>

type_synonym bounds = "(team, int \<times> int) dict \<times> (team, int \<times> int) dict"

definition bound_team :: "team \<Rightarrow> bounds \<Rightarrow> error + bounds" where
  "bound_team t b =
    (case map_of (fst b) t of
       None \<Rightarrow> Inl KeyError
     | Some lo \<Rightarrow>
         (case map_of (snd b) t of
            None \<Rightarrow> Inl KeyError
          | Some hi \<Rightarrow>
              Inr (dset (fst b) t (fst lo, snd lo - 4), dset (snd b) t (fst hi + 1, snd hi + 4))))"

fun bound_matches :: "game list \<Rightarrow> bounds \<Rightarrow> error + bounds" where
  "bound_matches [] b = Inr b"
| "bound_matches (m # ms) b =
     (case bound_team (fst (teams m)) b of
        Inl e \<Rightarrow> Inl e
      | Inr b1 \<Rightarrow>
          (case bound_team (snd (teams m)) b1 of
             Inl e \<Rightarrow> Inl e
           | Inr b2 \<Rightarrow> bound_matches ms b2))"

text \<open>\<^verbatim>\<open>list(sorted(xs))[-k]\<close> for a positive \<open>k\<close>.\<close>

definition sorted_from_end :: "nat \<Rightarrow> ('a::linorder) list \<Rightarrow> error + 'a" where
  "sorted_from_end k xs =
    (if k \<le> length xs then Inr (sort xs ! (length xs - k)) else Inl IndexError)"

text \<open>The body of the loop over \<^verbatim>\<open>prediction.items()\<close>, and the loop.\<close>

definition normalize ::
  "'a predictor_scheme \<Rightarrow> bounds \<Rightarrow> int \<times> int \<Rightarrow> int \<times> int \<Rightarrow> team \<Rightarrow> prob \<times> prob \<Rightarrow>
   error + prob \<times> prob" where
  "normalize s b min_8th_wins max_9th_wins t pp =
    (case map_of (snd b) t of
       None \<Rightarrow> Inl KeyError
     | Some hi \<Rightarrow>
         if hi < min_8th_wins then Inr (Flag False, Flag False)
         else
           (case map_of (fst b) t of
              None \<Rightarrow> Inl KeyError
            | Some lo \<Rightarrow>
                if lo > max_9th_wins then
                  Inr (Flag True,
                       if dget (stage_title_losses s) t > 0 then Flag False
                       else if stage_finished s then Flag True
                       else snd pp)
                else Inr pp))"

fun normalize_all ::
  "'a predictor_scheme \<Rightarrow> bounds \<Rightarrow> int \<times> int \<Rightarrow> int \<times> int \<Rightarrow> (team, prob \<times> prob) dict \<Rightarrow>
   (team, prob \<times> prob) dict \<Rightarrow> error + (team, prob \<times> prob) dict" where
  "normalize_all s b lo8 hi9 [] prediction = Inr prediction"
| "normalize_all s b lo8 hi9 (item # items) prediction =
     (case normalize s b lo8 hi9 (fst item) (snd item) of
        Inl e \<Rightarrow> Inl e
      | Inr pp \<Rightarrow> normalize_all s b lo8 hi9 items (dset prediction (fst item) pp))"

text \<open>
  \<^verbatim>\<open>Predictor.predict_stage\<close>. \<open>TEAMS\<close> is the list imported from \<^verbatim>\<open>game.py\<close>.
  \<open>estimate\<close> stands for the Monte-Carlo loop of \<^verbatim>\<open>_predict_stage\<close>: it gives each
  team its two frequencies, and \<^verbatim>\<open>_predict_stage\<close> returns them as a dictionary over
  \<open>TEAMS\<close>.
\<close>

definition remaining :: "'a predictor_scheme \<Rightarrow> game list \<Rightarrow> game list" where
  "remaining s matches =
    filter (\<lambda>m. Some (game_stage m) = stage s \<and> match_format m = ''regular'') matches"

definition predict_stage ::
  "team list \<Rightarrow> ('a predictor_scheme \<Rightarrow> game list \<Rightarrow> error + (team \<Rightarrow> real \<times> real)) \<Rightarrow>
   'a predictor_scheme \<Rightarrow> game list \<Rightarrow> error + (team, prob \<times> prob) dict" where
  "predict_stage TEAMS estimate s matches =
    (case estimate s (remaining s matches) of
       Inl e \<Rightarrow> Inl e
     | Inr est \<Rightarrow>
         (let prediction = dict_of (\<lambda>t. (Prob (fst (est t)), Prob (snd (est t)))) TEAMS;
              table = dict_of (stage_standing s) TEAMS
          in case bound_matches (remaining s matches) (table, table) of
               Inl e \<Rightarrow> Inl e
             | Inr b \<Rightarrow>
                 (case sorted_from_end 8 (dvalues (fst b)) of
                    Inl e \<Rightarrow> Inl e
                  | Inr min_8th_wins \<Rightarrow>
                      (case sorted_from_end 9 (dvalues (snd b)) of
                         Inl e \<Rightarrow> Inl e
                       | Inr max_9th_wins \<Rightarrow>
                           normalize_all s b min_8th_wins max_9th_wins prediction prediction))))"

text \<open>
  The standings that the claims about \<^verbatim>\<open>predict_stage\<close> speak of: a team's
  appearances in the remaining matches, its best possible standing (a win and four maps
  for each) and its worst possible one (four maps lost for each).
\<close>

definition appearances :: "game list \<Rightarrow> team \<Rightarrow> int" where
  "appearances ms t =
    int (length (filter (\<lambda>x. x = t) (concat (map (\<lambda>m. [fst (teams m), snd (teams m)]) ms))))"

definition best_standing :: "'a predictor_scheme \<Rightarrow> game list \<Rightarrow> team \<Rightarrow> int \<times> int" where
  "best_standing s ms t =
    (dget (stage_wins s) t + appearances ms t, dget (stage_map_diffs s) t + 4 * appearances ms t)"

definition worst_standing :: "'a predictor_scheme \<Rightarrow> game list \<Rightarrow> team \<Rightarrow> int \<times> int" where
  "worst_standing s ms t =
    (dget (stage_wins s) t, dget (stage_map_diffs s) t - 4 * appearances ms t)"

text \<open>The \<open>k\<close>-th largest of the values that a function takes on the keys of a dictionary over \<open>ks\<close>.\<close>

definition kth_largest :: "nat \<Rightarrow> ('k \<Rightarrow> 'a::linorder) \<Rightarrow> 'k list \<Rightarrow> 'a" where
  "kth_largest k f ks = rev (sort (dvalues (dict_of f ks))) ! (k - 1)"

text \<open>
  What the loop over the remaining matches does to the two dictionaries, seen from
  outside: the keys stay, and the entry of team \<open>k\<close> has moved by \<open>c k\<close> steps.
\<close>

definition shifted :: "(team \<Rightarrow> int) \<Rightarrow> bounds \<Rightarrow> bounds \<Rightarrow> bool" where
  "shifted c b b' =
    (map fst (fst b') = map fst (fst b) \<and> map fst (snd b') = map fst (snd b) \<and>
     (\<forall>k. map_of (fst b') k = map_option (\<lambda>p. (fst p, snd p - 4 * c k)) (map_of (fst b) k)) \<and>
     (\<forall>k. map_of (snd b') k = map_option (\<lambda>p. (fst p + c k, snd p + 4 * c k)) (map_of (snd b) k)))"

section \<open>A match played game by game\<close>

text \<open>
  The games of one match between teams \<open>a\<close> and \<open>b\<close>: the same teams, stage, match
  id and format, and no drawn game. \<open>first_wins\<close> and \<open>second_wins\<close> count the games
  each side won: together they are the match's final tally.
\<close>

definition match_game :: "team \<Rightarrow> team \<Rightarrow> string \<Rightarrow> int \<Rightarrow> string \<Rightarrow> game \<Rightarrow> bool" where
  "match_game a b stg m fmt g =
    (teams g = (a, b) \<and> game_stage g = stg \<and> game_match_id g = m \<and> match_format g = fmt \<and>
     fst (game_score g) \<noteq> snd (game_score g))"

definition first_wins :: "game list \<Rightarrow> int" where
  "first_wins gs = int (length (filter (\<lambda>g. fst (game_score g) > snd (game_score g)) gs))"

definition second_wins :: "game list \<Rightarrow> int" where
  "second_wins gs = int (length (filter (\<lambda>g. fst (game_score g) < snd (game_score g)) gs))"

text \<open>Two states agree on every win and loss counter, for every team and pair.\<close>

definition same_win_loss :: "'a predictor_scheme \<Rightarrow> 'a predictor_scheme \<Rightarrow> bool" where
  "same_win_loss s1 s2 =
    ((\<forall>t. dget (wins s1) t = dget (wins s2) t \<and> dget (losses s1) t = dget (losses s2) t \<and>
          dget (stage_wins s1) t = dget (stage_wins s2) t \<and>
          dget (stage_losses s1) t = dget (stage_losses s2) t \<and>
          dget (stage_title_wins s1) t = dget (stage_title_wins s2) t \<and>
          dget (stage_title_losses s1) t = dget (stage_title_losses s2) t \<and>
          dget (playoff_wins s1) t = dget (playoff_wins s2) t \<and>
          dget (playoff_losses s1) t = dget (playoff_losses s2) t) \<and>
     (\<forall>p. dget (head_to_head_diffs s1) p = dget (head_to_head_diffs s2) p))"

text \<open>
  What the tracker has credited while the match's tally stands at \<open>nx\<close> to \<open>ny\<close>:
  the side that leads holds one match win (\<open>credit x y\<close>) and the other side the
  loss (\<open>credit y x\<close>); \<open>pair_credit\<close> is the head-to-head difference. \<open>tracks\<close>
  says that the state \<open>s\<close> has the match open at that tally and that its counters
  are those of \<open>base\<close> plus these credits, in the counters that the format selects.
\<close>

definition leads :: "int \<Rightarrow> int \<Rightarrow> int" where
  "leads x y = (if x > y then 1 else 0)"

definition credit :: "team \<Rightarrow> team \<Rightarrow> int \<Rightarrow> int \<Rightarrow> team \<Rightarrow> int" where
  "credit x y nx ny t = (if t = x then leads nx ny else 0) + (if t = y then leads ny nx else 0)"

definition pair_credit :: "team \<Rightarrow> team \<Rightarrow> int \<Rightarrow> int \<Rightarrow> team \<times> team \<Rightarrow> int" where
  "pair_credit x y nx ny p =
    (if p = (x, y) then leads nx ny - leads ny nx else 0) +
    (if p = (y, x) then leads ny nx - leads nx ny else 0)"

definition tracks ::
  "team \<Rightarrow> team \<Rightarrow> string \<Rightarrow> int \<Rightarrow> string \<Rightarrow> 'a predictor_scheme \<Rightarrow> int \<Rightarrow> int \<Rightarrow>
   'a predictor_scheme \<Rightarrow> bool" where
  "tracks a b stg m fmt base na nb s =
    (stage s = Some stg \<and> match_id s = Some m \<and>
     (\<exists>sc. score s = Some sc \<and> map_of sc a = Some na \<and> map_of sc b = Some nb) \<and>
     (\<forall>t. dget (wins s) t =
            dget (wins base) t + (if fmt = ''regular'' then credit a b na nb t else 0) \<and>
          dget (losses s) t =
            dget (losses base) t + (if fmt = ''regular'' then credit b a na nb t else 0) \<and>
          dget (stage_wins s) t =
            dget (stage_wins base) t + (if fmt = ''regular'' then credit a b na nb t else 0) \<and>
          dget (stage_losses s) t =
            dget (stage_losses base) t + (if fmt = ''regular'' then credit b a na nb t else 0) \<and>
          dget (stage_title_wins s) t =
            dget (stage_title_wins base) t +
              (if fmt \<noteq> ''regular'' \<and> str_in ''Title'' stg then credit a b na nb t else 0) \<and>
          dget (stage_title_losses s) t =
            dget (stage_title_losses base) t +
              (if fmt \<noteq> ''regular'' \<and> str_in ''Title'' stg then credit b a na nb t else 0) \<and>
          dget (playoff_wins s) t =
            dget (playoff_wins base) t +
              (if fmt \<noteq> ''regular'' \<and> \<not> str_in ''Title'' stg \<and> fmt = ''playoff''
               then credit a b na nb t else 0) \<and>
          dget (playoff_losses s) t =
            dget (playoff_losses base) t +
              (if fmt \<noteq> ''regular'' \<and> \<not> str_in ''Title'' stg \<and> fmt = ''playoff''
               then credit b a na nb t else 0)) \<and>
     (\<forall>p. dget (head_to_head_diffs s) p =
            dget (head_to_head_diffs base) p +
              (if fmt = ''regular'' then pair_credit a b na nb p else 0)))"

text \<open>The two calls that open \<^verbatim>\<open>_update_standings\<close>.\<close>

definition open_match :: "game \<Rightarrow> 'a predictor_scheme \<Rightarrow> 'a predictor_scheme" where
  "open_match g s = update_match_ids (game_match_id g) (teams g) (update_stage (game_stage g) s)"

section \<open>Example games\<close>

text \<open>
  Teams A and B play a regular match in Stage 1 (match 1), teams C and D another
  (match 2); A and B meet again in a playoff match and in the finals, or in a title
  match of Stage 1. The last two games are matches to predict.
\<close>

definition example_game :: "team \<times> team \<Rightarrow> int \<times> int \<Rightarrow> string \<Rightarrow> int \<Rightarrow> string \<Rightarrow> game" where
  "example_game ts sc stg m fmt =
    \<lparr>teams = ts, rosters = Some ([], []), full_rosters = Some ([], []), game_score = sc,
     drawable = False, game_stage = stg, game_match_id = m, match_format = fmt\<rparr>"

definition game_regular :: game where
  "game_regular = example_game (''A'', ''B'') (2, 1) ''Stage 1'' 1 ''regular''"

definition game_regular_lost :: game where
  "game_regular_lost = example_game (''A'', ''B'') (1, 2) ''Stage 1'' 1 ''regular''"

definition game_other :: game where
  "game_other = example_game (''C'', ''D'') (2, 1) ''Stage 1'' 2 ''regular''"

definition game_drawn :: game where
  "game_drawn = example_game (''A'', ''B'') (1, 1) ''Stage 1'' 1 ''regular''"

definition game_playoff :: game where
  "game_playoff = example_game (''A'', ''B'') (3, 1) ''Playoffs'' 3 ''playoff''"

definition game_final :: game where
  "game_final = example_game (''A'', ''B'') (2, 2) ''Finals'' 4 ''playoff''"

definition game_title :: game where
  "game_title = example_game (''A'', ''B'') (3, 2) ''Stage 1 Title Matches'' 8 ''best-of-5''"

definition game_best :: game where
  "game_best = example_game (''A'', ''B'') (0, 0) ''Stage 1'' 5 ''best''"

definition game_best_of_5 :: game where
  "game_best_of_5 = example_game (''A'', ''B'') (0, 0) ''Stage 1 Title Matches'' 6 ''best-of-5''"

text \<open>
  A predictor with two rated teams. The distribution function and the draw margin
  stand in for the package's: any function with \<open>cdf (- x) = 1 - cdf x\<close> and any
  margin will do.
\<close>

definition example_cdf :: "real \<Rightarrow> real" where
  "example_cdf x = 1 / 2 + x / (2 * (1 + \<bar>x\<bar>))"

definition example_margin :: "real \<Rightarrow> nat \<Rightarrow> env \<Rightarrow> real" where
  "example_margin p n e = p * real n * env_beta e"

definition example_trueskill :: trueskill_predictor where
  "example_trueskill =
    (init_trueskill_predictor 12 2500 (2500 / 3) 1250 (25 / 3) (6 / 100) example_cdf)
      \<lparr>ratings := [(''A'', \<lparr>mu = 2600, sigma = 800\<rparr>), (''B'', \<lparr>mu = 2400, sigma = 700\<rparr>)]\<rparr>"

text \<open>
  Two \<^verbatim>\<open>predict\<close> methods that ignore the teams: one gives an undrawable game the
  draw probability zero, the other gives every game the draw probability one half.
\<close>

definition example_predict :: "unit predict_method" where
  "example_predict s ts rs frs d = Inr (if d then (1 / 2, 1 / 4) else (3 / 5, 0))"

definition drawing_predict :: "unit predict_method" where
  "drawing_predict s ts rs frs d = Inr (1 / 2, 1 / 2)"

text \<open>
  A stage with ten teams and one regular match left, between the two teams at the
  bottom; team B has lost a title match. The estimate stands for the frequencies that
  the Monte-Carlo loop would return.
\<close>

definition TEAMS10 :: "team list" where
  "TEAMS10 = [''A'', ''B'', ''C'', ''D'', ''E'', ''F'', ''G'', ''H'', ''I'', ''J'']"

definition stage_example :: predictor where
  "stage_example =
    (init_predictor 12)
      \<lparr>stage := Some ''Stage 1'', base_stage := Some ''Stage 1'',
       stage_wins := [(''A'', 5), (''B'', 4), (''C'', 4), (''D'', 4), (''E'', 4), (''F'', 4),
                      (''G'', 4), (''H'', 4), (''I'', 1), (''J'', 0)],
       stage_title_losses := [(''B'', 1)]\<rparr>"

definition game_left :: game where
  "game_left = example_game (''I'', ''J'') (0, 0) ''Stage 1'' 7 ''regular''"

definition example_estimate :: "predictor \<Rightarrow> game list \<Rightarrow> error + (team \<Rightarrow> real \<times> real)" where
  "example_estimate s ms = Inr (\<lambda>t. (1 / 2, 1 / 4))"

text \<open>The predictor after \<^verbatim>\<open>_update_standings\<close> has processed the given games in turn.\<close>

definition standings_after :: "game list \<Rightarrow> predictor" where
  "standings_after gs = projr (update_standings_games gs (init_predictor 12))"

section \<open>Facts about dictionaries\<close>

lemma dget_Nil: "dget [] k = 0"
  by (simp add: dget_def)

lemma dget_dadd: "dget (dadd d k v) k' = (if k' = k then dget d k + v else dget d k')"
  for d :: "('k, 'v::monoid_add) dict"
  by (induction d) (auto simp: dget_def)

lemma map_of_dadd: "map_of (dadd d k v) k' = (if k' = k then Some (dget d k + v) else map_of d k')"
  for d :: "('k, 'v::monoid_add) dict"
  by (induction d) (auto simp: dget_def)

lemma map_of_dset: "map_of (dset d k v) k' = (if k' = k then Some v else map_of d k')"
  by (induction d) auto

lemmas standings_defs =
  update_standings_def record_result_def handle_result_def bump_score_def
  credit_match_def reverse_match_def credit_map_diffs_def update_match_ids_def
  append_history_def update_stage_def Let_def

lemmas example_defs =
  standings_after_def example_game_def init_predictor_def startswith_def
  game_regular_def game_other_def game_drawn_def game_playoff_def game_final_def
  game_best_def game_best_of_5_def game_regular_lost_def game_title_def

section \<open>Stage transitions\<close>

text \<open>
  Claim C4, as the code has it. When a game enters a new stage, \<^verbatim>\<open>_update_stage\<close>
  empties the stage wins, stage losses, stage map differentials, stage head-to-head map
  differentials, stage-title wins and stage-title losses, so each of them reads zero for
  every team and every pair, and the new stage becomes the current and the base stage;
  the rest of \<^verbatim>\<open>_update_standings\<close> then runs on that state. The playoff wins and
  losses are not among the cleared counters: they keep their values.
\<close>

theorem new_stage_resets_stage_counters:
  assumes "new_stage s (game_stage g)"
  shows "(\<forall>t. dget (stage_wins (update_stage (game_stage g) s)) t = 0 \<and>
             dget (stage_losses (update_stage (game_stage g) s)) t = 0 \<and>
             dget (stage_map_diffs (update_stage (game_stage g) s)) t = 0 \<and>
             dget (stage_title_wins (update_stage (game_stage g) s)) t = 0 \<and>
             dget (stage_title_losses (update_stage (game_stage g) s)) t = 0) \<and>
         (\<forall>p. dget (stage_head_to_head_map_diffs (update_stage (game_stage g) s)) p = 0) \<and>
         playoff_wins (update_stage (game_stage g) s) = playoff_wins s \<and>
         playoff_losses (update_stage (game_stage g) s) = playoff_losses s \<and>
         stage (update_stage (game_stage g) s) = Some (game_stage g) \<and>
         base_stage (update_stage (game_stage g) s) = Some (game_stage g) \<and>
         update_standings g s =
           record_result g
             (update_match_ids (game_match_id g) (teams g) (update_stage (game_stage g) s))"
  using assms by (simp add: new_stage_def update_stage_def dget_Nil update_standings_def)

text \<open>
  The theorem at a playoff game that follows a regular game of Stage 1: the stage win
  that team A held is gone.
\<close>

theorem new_stage_resets_stage_counters_witness:
  "new_stage (standings_after [game_regular]) (game_stage game_playoff) \<and>
   (\<forall>t. dget (stage_wins (update_stage (game_stage game_playoff) (standings_after [game_regular]))) t = 0) \<and>
   dget (stage_wins (standings_after [game_regular])) ''A'' = 1 \<and>
   stage (update_stage (game_stage game_playoff) (standings_after [game_regular])) = Some ''Playoffs''"
proof -
  have new: "new_stage (standings_after [game_regular]) (game_stage game_playoff)"
    by (simp add: new_stage_def example_defs standings_defs)
  have before: "dget (stage_wins (standings_after [game_regular])) ''A'' = 1"
    by (simp add: example_defs standings_defs dget_def)
  have name: "game_stage game_playoff = ''Playoffs''"
    by (simp add: example_defs)
  from new_stage_resets_stage_counters [OF new] new before name show ?thesis
    by simp
qed

text \<open>
  Against claim C4 as stated: after a playoff match that team A won, a game of the new
  stage ``Finals'' leaves A's playoff win and B's playoff loss in place, in the state
  that \<^verbatim>\<open>_update_stage\<close> returns and after the (drawn) game has been processed.
\<close>

theorem playoff_counters_survive_new_stage:
  "new_stage (standings_after [game_playoff]) (game_stage game_final) \<and>
   dget (playoff_wins (standings_after [game_playoff])) ''A'' = 1 \<and>
   dget (playoff_wins (update_stage (game_stage game_final) (standings_after [game_playoff]))) ''A'' = 1 \<and>
   dget (playoff_wins (standings_after [game_playoff, game_final])) ''A'' = 1 \<and>
   dget (playoff_losses (standings_after [game_playoff, game_final])) ''B'' = 1"
  by (simp add: example_defs standings_defs new_stage_def dget_def)

section \<open>Map differentials\<close>

lemma update_stage_season:
  "map_diffs (update_stage stg s) = map_diffs s"
  "head_to_head_map_diffs (update_stage stg s) = head_to_head_map_diffs s"
  by (simp_all add: update_stage_def)

lemma update_stage_stage_diffs:
  "stage_map_diffs (update_stage stg s) = (if new_stage s stg then [] else stage_map_diffs s)"
  "stage_head_to_head_map_diffs (update_stage stg s) =
     (if new_stage s stg then [] else stage_head_to_head_map_diffs s)"
  by (simp_all add: update_stage_def new_stage_def)

lemma update_match_ids_diffs:
  "map_diffs (update_match_ids m ts s) = map_diffs s"
  "head_to_head_map_diffs (update_match_ids m ts s) = head_to_head_map_diffs s"
  "stage_map_diffs (update_match_ids m ts s) = stage_map_diffs s"
  "stage_head_to_head_map_diffs (update_match_ids m ts s) = stage_head_to_head_map_diffs s"
  by (simp_all add: update_match_ids_def append_history_def Let_def)

lemma update_stage_wins:
  "wins (update_stage stg s) = wins s"
  "losses (update_stage stg s) = losses s"
  "head_to_head_diffs (update_stage stg s) = head_to_head_diffs s"
  "stage_wins (update_stage stg s) = (if new_stage s stg then [] else stage_wins s)"
  "stage_losses (update_stage stg s) = (if new_stage s stg then [] else stage_losses s)"
  by (simp_all add: update_stage_def new_stage_def)

lemma update_match_ids_wins:
  "wins (update_match_ids m ts s) = wins s"
  "losses (update_match_ids m ts s) = losses s"
  "head_to_head_diffs (update_match_ids m ts s) = head_to_head_diffs s"
  "stage_wins (update_match_ids m ts s) = stage_wins s"
  "stage_losses (update_match_ids m ts s) = stage_losses s"
  by (simp_all add: update_match_ids_def append_history_def Let_def)

text \<open>
  The match result of a game that is not regular writes the title or the playoff
  counters and the tally, and nothing else.
\<close>

lemma handle_result_frame:
  assumes "match_format g \<noteq> ''regular''" and "handle_result g w l s = Inr s'"
  shows "s' = s\<lparr>stage_title_wins := stage_title_wins s',
                stage_title_losses := stage_title_losses s',
                playoff_wins := playoff_wins s', playoff_losses := playoff_losses s',
                score := score s', scores := scores s'\<rparr>"
  using assms
  by (auto simp: handle_result_def bump_score_def credit_match_def reverse_match_def Let_def
      split: option.splits if_splits)

lemma record_result_frame:
  assumes "match_format g \<noteq> ''regular''" and "record_result g s = Inr s'"
  shows "s' = s\<lparr>stage_title_wins := stage_title_wins s',
                stage_title_losses := stage_title_losses s',
                playoff_wins := playoff_wins s', playoff_losses := playoff_losses s',
                score := score s', scores := scores s'\<rparr>"
  using assms handle_result_frame [OF assms(1)]
  by (auto simp: record_result_def split: if_splits)

text \<open>
  Claim C7, as the code has it. Let a game whose match format is not \<^verbatim>\<open>'regular'\<close>
  be processed without an exception. The season map differentials and the season
  head-to-head map differentials are as they were, for every team and every pair. The
  stage map differentials and the stage head-to-head map differentials are as they were
  too, unless the game enters a new stage: then \<^verbatim>\<open>_update_stage\<close> has emptied both.
  Nothing but win/loss-type counters and the tally changes beyond what the stage
  transition and the opening of the match set (the current and base stage, the cleared
  stage counters, the current match id, the match history): the final state is the
  state after those two calls with new values for the stage-title wins and losses, the
  playoff wins and losses and the tally only. In particular the season wins, losses and
  head-to-head differences are as they were, and so are the stage wins and losses
  unless the new stage has emptied them.
\<close>

theorem non_regular_game_keeps_map_diffs:
  assumes "match_format g \<noteq> ''regular''" and "update_standings g s = Inr s'"
  shows "map_diffs s' = map_diffs s \<and>
         head_to_head_map_diffs s' = head_to_head_map_diffs s \<and>
         stage_map_diffs s' = (if new_stage s (game_stage g) then [] else stage_map_diffs s) \<and>
         stage_head_to_head_map_diffs s' =
           (if new_stage s (game_stage g) then [] else stage_head_to_head_map_diffs s) \<and>
         wins s' = wins s \<and> losses s' = losses s \<and>
         head_to_head_diffs s' = head_to_head_diffs s \<and>
         stage_wins s' = (if new_stage s (game_stage g) then [] else stage_wins s) \<and>
         stage_losses s' = (if new_stage s (game_stage g) then [] else stage_losses s) \<and>
         s' = (open_match g s)
                \<lparr>stage_title_wins := stage_title_wins s',
                 stage_title_losses := stage_title_losses s',
                 playoff_wins := playoff_wins s', playoff_losses := playoff_losses s',
                 score := score s', scores := scores s'\<rparr>"
proof -
  from assms(2) have run: "record_result g (open_match g s) = Inr s'"
    by (simp add: update_standings_def open_match_def)
  note frame = record_result_frame [OF assms(1) run]
  have same:
    "map_diffs s' = map_diffs (open_match g s)"
    "head_to_head_map_diffs s' = head_to_head_map_diffs (open_match g s)"
    "stage_map_diffs s' = stage_map_diffs (open_match g s)"
    "stage_head_to_head_map_diffs s' = stage_head_to_head_map_diffs (open_match g s)"
    "wins s' = wins (open_match g s)"
    "losses s' = losses (open_match g s)"
    "head_to_head_diffs s' = head_to_head_diffs (open_match g s)"
    "stage_wins s' = stage_wins (open_match g s)"
    "stage_losses s' = stage_losses (open_match g s)"
    by (subst frame, simp)+
  from frame show ?thesis
    unfolding same
    by (simp add: open_match_def update_match_ids_diffs update_stage_season
        update_stage_stage_diffs update_match_ids_wins update_stage_wins)
qed

text \<open>
  The theorem at two games that follow a regular game of Stage 1 which team A won, so
  that every map differential is set. A title match of the same stage keeps all four
  map differentials and the season and stage wins, and credits A a title win. A
  playoff game enters a new stage: the season map differentials stay, the stage ones
  are emptied.
\<close>

theorem non_regular_game_keeps_map_diffs_witness:
  "match_format game_title \<noteq> ''regular'' \<and>
   update_standings game_title (standings_after [game_regular]) =
     Inr (standings_after [game_regular, game_title]) \<and>
   \<not> new_stage (standings_after [game_regular]) (game_stage game_title) \<and>
   map_diffs (standings_after [game_regular]) = [(''A'', 1), (''B'', - 1)] \<and>
   map_diffs (standings_after [game_regular, game_title]) = [(''A'', 1), (''B'', - 1)] \<and>
   head_to_head_map_diffs (standings_after [game_regular, game_title]) =
     [((''A'', ''B''), 1), ((''B'', ''A''), - 1)] \<and>
   stage_map_diffs (standings_after [game_regular, game_title]) = [(''A'', 1), (''B'', - 1)] \<and>
   stage_head_to_head_map_diffs (standings_after [game_regular, game_title]) =
     [((''A'', ''B''), 1), ((''B'', ''A''), - 1)] \<and>
   wins (standings_after [game_regular, game_title]) = [(''A'', 1)] \<and>
   stage_wins (standings_after [game_regular, game_title]) = [(''A'', 1)] \<and>
   stage_title_wins (standings_after [game_regular]) = [] \<and>
   stage_title_wins (standings_after [game_regular, game_title]) = [(''A'', 1)] \<and>
   match_format game_playoff \<noteq> ''regular'' \<and>
   update_standings game_playoff (standings_after [game_regular]) =
     Inr (standings_after [game_regular, game_playoff]) \<and>
   new_stage (standings_after [game_regular]) (game_stage game_playoff) \<and>
   map_diffs (standings_after [game_regular, game_playoff]) = [(''A'', 1), (''B'', - 1)] \<and>
   stage_map_diffs (standings_after [game_regular, game_playoff]) = [] \<and>
   wins (standings_after [game_regular, game_playoff]) = [(''A'', 1)] \<and>
   playoff_wins (standings_after [game_regular, game_playoff]) = [(''A'', 1)]"
proof -
  have fmt: "match_format game_title \<noteq> ''regular''" "match_format game_playoff \<noteq> ''regular''"
    by (simp_all add: example_defs)
  have run: "update_standings game_title (standings_after [game_regular]) =
      Inr (standings_after [game_regular, game_title])"
    "update_standings game_playoff (standings_after [game_regular]) =
      Inr (standings_after [game_regular, game_playoff])"
    by (simp_all add: example_defs standings_defs)
  have stg: "\<not> new_stage (standings_after [game_regular]) (game_stage game_title)"
    "new_stage (standings_after [game_regular]) (game_stage game_playoff)"
    by (simp_all add: example_defs standings_defs new_stage_def)
  have before: "map_diffs (standings_after [game_regular]) = [(''A'', 1), (''B'', - 1)]"
    "head_to_head_map_diffs (standings_after [game_regular]) =
       [((''A'', ''B''), 1), ((''B'', ''A''), - 1)]"
    "stage_map_diffs (standings_after [game_regular]) = [(''A'', 1), (''B'', - 1)]"
    "stage_head_to_head_map_diffs (standings_after [game_regular]) =
       [((''A'', ''B''), 1), ((''B'', ''A''), - 1)]"
    "wins (standings_after [game_regular]) = [(''A'', 1)]"
    "stage_wins (standings_after [game_regular]) = [(''A'', 1)]"
    "stage_title_wins (standings_after [game_regular]) = []"
    by (simp_all add: example_defs standings_defs)
  have credited: "stage_title_wins (standings_after [game_regular, game_title]) = [(''A'', 1)]"
    "playoff_wins (standings_after [game_regular, game_playoff]) = [(''A'', 1)]"
    by (simp_all add: example_defs standings_defs)
  from non_regular_game_keeps_map_diffs [OF fmt(1) run(1)]
    non_regular_game_keeps_map_diffs [OF fmt(2) run(2)]
    fmt run stg before credited
  show ?thesis
    by simp
qed

text \<open>
  Against claim C7 as stated: a playoff game that follows a regular game of Stage 1
  enters a new stage, and team A's stage map differential and the stage head-to-head map
  differential of A against B go from 1 to 0. The same game also changes what is
  neither a win/loss counter nor the tally: the current stage, the current match id and
  A's match history in the new stage.
\<close>

theorem playoff_game_clears_stage_map_diffs:
  "match_format game_playoff \<noteq> ''regular'' \<and>
   update_standings game_playoff (standings_after [game_regular]) =
     Inr (standings_after [game_regular, game_playoff]) \<and>
   dget (stage_map_diffs (standings_after [game_regular])) ''A'' = 1 \<and>
   dget (stage_map_diffs (standings_after [game_regular, game_playoff])) ''A'' = 0 \<and>
   dget (stage_head_to_head_map_diffs (standings_after [game_regular])) (''A'', ''B'') = 1 \<and>
   dget (stage_head_to_head_map_diffs (standings_after [game_regular, game_playoff])) (''A'', ''B'') = 0 \<and>
   stage (standings_after [game_regular]) = Some ''Stage 1'' \<and>
   stage (standings_after [game_regular, game_playoff]) = Some ''Playoffs'' \<and>
   match_id (standings_after [game_regular]) = Some 1 \<and>
   match_id (standings_after [game_regular, game_playoff]) = Some 3 \<and>
   match_history (standings_after [game_regular]) (Some ''Playoffs'') ''A'' = [] \<and>
   match_history (standings_after [game_regular, game_playoff]) (Some ''Playoffs'') ''A'' = [3]"
  by (simp add: example_defs standings_defs dget_def)

section \<open>Drawn games\<close>

lemma register_match_counters:
  "wins (register_match m ts s) = wins s"
  "losses (register_match m ts s) = losses s"
  "map_diffs (register_match m ts s) = map_diffs s"
  "head_to_head_diffs (register_match m ts s) = head_to_head_diffs s"
  "head_to_head_map_diffs (register_match m ts s) = head_to_head_map_diffs s"
  "stage_wins (register_match m ts s) = stage_wins s"
  "stage_losses (register_match m ts s) = stage_losses s"
  "stage_map_diffs (register_match m ts s) = stage_map_diffs s"
  "stage_head_to_head_map_diffs (register_match m ts s) = stage_head_to_head_map_diffs s"
  "stage_title_wins (register_match m ts s) = stage_title_wins s"
  "stage_title_losses (register_match m ts s) = stage_title_losses s"
  "playoff_wins (register_match m ts s) = playoff_wins s"
  "playoff_losses (register_match m ts s) = playoff_losses s"
  by (simp_all add: register_match_def Let_def)

lemma drawn_game_result:
  assumes "fst (game_score g) = snd (game_score g)" and "stage s = Some (game_stage g)"
  shows "update_standings g s =
           Inr (if match_id s = Some (game_match_id g) then s
                else register_match (game_match_id g) (teams g) s)"
  using assms
  by (simp add: update_standings_def record_result_def update_stage_def update_match_ids_def
      append_history_def register_match_def Let_def)

text \<open>
  Claim C9, as the code has it. A drawn game of the current stage never raises and
  leaves every win, loss, map-differential, head-to-head, title and playoff counter as
  it was. When the game's match id is the tracker's current match id, the state does
  not change at all. When it is any other id, whether seen before or not, the match is
  opened: the tally becomes a zero tally, stored under the id in place of whatever was
  stored there, and the id is appended to the match history.
\<close>

theorem drawn_game_only_registers_match:
  assumes "fst (game_score g) = snd (game_score g)" and "stage s = Some (game_stage g)"
  shows "\<exists>s'. update_standings g s = Inr s' \<and>
           s' = (if match_id s = Some (game_match_id g) then s
                 else register_match (game_match_id g) (teams g) s) \<and>
           wins s' = wins s \<and> losses s' = losses s \<and> map_diffs s' = map_diffs s \<and>
           head_to_head_diffs s' = head_to_head_diffs s \<and>
           head_to_head_map_diffs s' = head_to_head_map_diffs s \<and>
           stage_wins s' = stage_wins s \<and> stage_losses s' = stage_losses s \<and>
           stage_map_diffs s' = stage_map_diffs s \<and>
           stage_head_to_head_map_diffs s' = stage_head_to_head_map_diffs s \<and>
           stage_title_wins s' = stage_title_wins s \<and>
           stage_title_losses s' = stage_title_losses s \<and>
           playoff_wins s' = playoff_wins s \<and> playoff_losses s' = playoff_losses s"
  by (simp add: drawn_game_result [OF assms] register_match_counters)

text \<open>The theorem at a drawn game of the match in progress: nothing changes.\<close>

theorem drawn_game_only_registers_match_witness:
  "fst (game_score game_drawn) = snd (game_score game_drawn) \<and>
   stage (standings_after [game_regular]) = Some (game_stage game_drawn) \<and>
   match_id (standings_after [game_regular]) = Some (game_match_id game_drawn) \<and>
   update_standings game_drawn (standings_after [game_regular]) = Inr (standings_after [game_regular])"
proof -
  have drawn: "fst (game_score game_drawn) = snd (game_score game_drawn)"
    by (simp add: example_defs)
  have stg: "stage (standings_after [game_regular]) = Some (game_stage game_drawn)"
    by (simp add: example_defs standings_defs)
  have mid: "match_id (standings_after [game_regular]) = Some (game_match_id game_drawn)"
    by (simp add: example_defs standings_defs)
  from drawn_game_only_registers_match [OF drawn stg] drawn stg mid show ?thesis
    by simp
qed

text \<open>
  Against claim C9 as stated: match 1 has been seen (team A leads it 1-0), match 2 is
  the current match, and a drawn game of match 1 arrives in the same stage. The stored
  tally of match 1 goes back to 0-0 and the id is appended to A's history a second time:
  the state changes although the match id is not a previously unseen one.
\<close>

theorem drawn_game_resets_seen_match:
  "fst (game_score game_drawn) = snd (game_score game_drawn) \<and>
   stage (standings_after [game_regular, game_other]) = Some (game_stage game_drawn) \<and>
   scores (standings_after [game_regular, game_other]) (game_match_id game_drawn) =
     Some [(''A'', 1), (''B'', 0)] \<and>
   scores (standings_after [game_regular, game_other, game_drawn]) (game_match_id game_drawn) =
     Some [(''A'', 0), (''B'', 0)] \<and>
   match_history (standings_after [game_regular, game_other]) (Some ''Stage 1'') ''A'' = [1] \<and>
   match_history (standings_after [game_regular, game_other, game_drawn]) (Some ''Stage 1'') ''A'' = [1, 1]"
  by (simp add: example_defs standings_defs)

section \<open>Evaluating a drawn game\<close>

text \<open>
  Claim C10. For a game whose two map scores are equal, \<^verbatim>\<open>evaluate\<close> returns the
  point 0 and the flag \<^verbatim>\<open>False\<close> whatever the \<^verbatim>\<open>predict\<close> method is (it is not
  called), and \<^verbatim>\<open>train\<close> runs its four updates on the state in which 0 and
  \<^verbatim>\<open>False\<close> have been appended to the evaluation history, and returns the point 0.
\<close>

theorem drawn_game_scores_zero:
  assumes "fst (game_score g) = snd (game_score g)"
  shows "evaluate predict s g = Inr (0, False) \<and>
         train predict train_model s g =
           (case train_updates predict train_model g
                   (s\<lparr>points := points s @ [0], corrects := corrects s @ [False]\<rparr>) of
              Inl e \<Rightarrow> Inl e
            | Inr s' \<Rightarrow> Inr (s', 0))"
  using assms by (simp add: evaluate_def train_def record_point_def split: sum.splits)

text \<open>
  The theorem at a drawn game: with the \<^verbatim>\<open>predict\<close> of the base class, which
  raises, and in a run of \<^verbatim>\<open>train\<close> for a \<^verbatim>\<open>SimplePredictor\<close>.
\<close>

theorem drawn_game_scores_zero_witness:
  "fst (game_score game_drawn) = snd (game_score game_drawn) \<and>
   evaluate (\<lambda>s ts rs frs d. Inl NotImplementedError) (init_predictor 12) game_drawn = Inr (0, False) \<and>
   map_sum id (\<lambda>r. (points (fst r), corrects (fst r), snd r))
     (train simple_predict (\<lambda>s g. Inr s) (init_simple_predictor 12 (1 / 5) 0) game_drawn) =
     Inr ([0], [False], 0)"
proof -
  have drawn: "fst (game_score game_drawn) = snd (game_score game_drawn)"
    by (simp add: example_defs)
  have upd: "map_sum id (\<lambda>s. (points s, corrects s))
      (train_updates simple_predict (\<lambda>s g. Inr s) game_drawn
        ((init_simple_predictor 12 (1 / 5) 0)\<lparr>points := points (init_simple_predictor 12 (1 / 5) 0) @ [0],
            corrects := corrects (init_simple_predictor 12 (1 / 5) 0) @ [False]\<rparr>)) = Inr ([0], [False])"
    by (simp add: train_updates_def update_rosters_def record_roster_def update_draws_def
        standings_defs example_defs init_simple_predictor_def predictor.extend_def)
  from drawn_game_scores_zero [OF drawn, of "\<lambda>s ts rs frs d. Inl NotImplementedError" "init_predictor 12"]
    drawn_game_scores_zero [OF drawn, of simple_predict "init_simple_predictor 12 (1 / 5) 0" "\<lambda>s g. Inr s"]
    drawn upd
  show ?thesis
    by (auto split: sum.splits)
qed

section \<open>Match formats\<close>

text \<open>
  Claim C5 does not hold of the code. The format \<^verbatim>\<open>'best'\<close> is none of the four
  supported formats, yet \<^verbatim>\<open>predict_match_score\<close> does not raise
  \<^verbatim>\<open>NotImplementedError\<close> for it: \<^verbatim>\<open>'best' in ('best-of-5')\<close> is a substring test that
  succeeds, and the match is scored as a best-of-5 (here for a \<^verbatim>\<open>SimplePredictor\<close>
  with even teams).
\<close>

theorem unknown_format_is_scored:
  "match_format game_best \<noteq> ''preseason'' \<and> match_format game_best \<noteq> ''regular'' \<and>
   match_format game_best \<noteq> ''best-of-5'' \<and> match_format game_best \<noteq> ''best-of-7'' \<and>
   predict_match_score simple_predict (init_simple_predictor 12 (1 / 5) 0) game_best =
     bo_score (1 / 2, 0) (1 / 2, 0) [False, False, False, False, False] 3 \<and>
   predict_match_score simple_predict (init_simple_predictor 12 (1 / 5) 0) game_best \<noteq>
     Inl NotImplementedError"
proof -
  have run: "predict_match_score simple_predict (init_simple_predictor 12 (1 / 5) 0) game_best =
      bo_score (1 / 2, 0) (1 / 2, 0) [False, False, False, False, False] 3"
    by (simp add: predict_match_score_def example_defs predict_bo_score_def simple_predict_def
        init_simple_predictor_def predictor.extend_def dget_def)
  have "bo_score (1 / 2, 0) (1 / 2, 0) [False, False, False, False, False] 3 \<noteq> Inl NotImplementedError"
    by (simp add: bo_score_def Let_def split: option.splits)
  with run show ?thesis
    by (simp add: example_defs)
qed

section \<open>The order of a match's games\<close>

lemma dget_map_of: "map_of d k = Some v \<Longrightarrow> dget d k = v"
  by (simp add: dget_def)

lemma update_stage_same: "stage s = Some stg \<Longrightarrow> update_stage stg s = s"
  by (simp add: update_stage_def)

lemma update_match_ids_same: "match_id s = Some m \<Longrightarrow> update_match_ids m ts s = s"
  by (simp add: update_match_ids_def)

lemma handle_result_effect:
  assumes "score s = Some sc" and "map_of sc w = Some sw" and "map_of sc l = Some sl"
  shows "\<exists>s'. handle_result g w l s = Inr s' \<and>
    stage s' = stage s \<and> match_id s' = match_id s \<and> score s' = Some (dadd sc w 1) \<and>
    wins s' = (if match_format g = ''regular'' then
                 (if sw = sl then dadd (wins s) w 1
                  else if sw = sl - 1 then dadd (wins s) l (- 1) else wins s)
               else wins s) \<and>
    losses s' = (if match_format g = ''regular'' then
                 (if sw = sl then dadd (losses s) l 1
                  else if sw = sl - 1 then dadd (losses s) w (- 1) else losses s)
               else losses s) \<and>
    stage_wins s' = (if match_format g = ''regular'' then
                 (if sw = sl then dadd (stage_wins s) w 1
                  else if sw = sl - 1 then dadd (stage_wins s) l (- 1) else stage_wins s)
               else stage_wins s) \<and>
    stage_losses s' = (if match_format g = ''regular'' then
                 (if sw = sl then dadd (stage_losses s) l 1
                  else if sw = sl - 1 then dadd (stage_losses s) w (- 1) else stage_losses s)
               else stage_losses s) \<and>
    head_to_head_diffs s' = (if match_format g = ''regular'' \<and> (sw = sl \<or> sw = sl - 1) then
                 dadd (dadd (head_to_head_diffs s) (w, l) 1) (l, w) (- 1)
               else head_to_head_diffs s) \<and>
    stage_title_wins s' = (if match_format g \<noteq> ''regular'' \<and> str_in ''Title'' (game_stage g) then
                 (if sw = sl then dadd (stage_title_wins s) w 1
                  else if sw = sl - 1 then dadd (stage_title_wins s) l (- 1) else stage_title_wins s)
               else stage_title_wins s) \<and>
    stage_title_losses s' = (if match_format g \<noteq> ''regular'' \<and> str_in ''Title'' (game_stage g) then
                 (if sw = sl then dadd (stage_title_losses s) l 1
                  else if sw = sl - 1 then dadd (stage_title_losses s) w (- 1) else stage_title_losses s)
               else stage_title_losses s) \<and>
    playoff_wins s' = (if match_format g \<noteq> ''regular'' \<and> \<not> str_in ''Title'' (game_stage g) \<and>
                          match_format g = ''playoff'' then
                 (if sw = sl then dadd (playoff_wins s) w 1
                  else if sw = sl - 1 then dadd (playoff_wins s) l (- 1) else playoff_wins s)
               else playoff_wins s) \<and>
    playoff_losses s' = (if match_format g \<noteq> ''regular'' \<and> \<not> str_in ''Title'' (game_stage g) \<and>
                          match_format g = ''playoff'' then
                 (if sw = sl then dadd (playoff_losses s) l 1
                  else if sw = sl - 1 then dadd (playoff_losses s) w (- 1) else playoff_losses s)
               else playoff_losses s)"
  using assms
  by (simp add: handle_result_def Let_def credit_map_diffs_def bump_score_def credit_match_def
      reverse_match_def)

lemma credit_swap: "credit x y nx ny t = credit y x ny nx t"
  by (simp add: credit_def)

lemma pair_credit_swap: "pair_credit x y nx ny p = pair_credit y x ny nx p"
  by (simp add: pair_credit_def)

lemma credit_step_winner:
  "x \<noteq> y \<Longrightarrow>
   dget (if nx = ny then dadd d x 1 else if nx = ny - 1 then dadd d y (- 1) else d) t =
   dget d t + credit x y (nx + 1) ny t - credit x y nx ny t"
  by (simp add: dget_dadd credit_def leads_def)

lemma credit_step_loser:
  "x \<noteq> y \<Longrightarrow>
   dget (if nx = ny then dadd d y 1 else if nx = ny - 1 then dadd d x (- 1) else d) t =
   dget d t + credit y x (nx + 1) ny t - credit y x nx ny t"
  by (simp add: dget_dadd credit_def leads_def)

lemma pair_credit_step:
  "x \<noteq> y \<Longrightarrow>
   dget (if nx = ny \<or> nx = ny - 1 then dadd (dadd d (x, y) 1) (y, x) (- 1) else d) p =
   dget d p + pair_credit x y (nx + 1) ny p - pair_credit x y nx ny p"
  by (simp add: dget_dadd pair_credit_def leads_def)

lemma tracks_handle_result:
  assumes ab: "a \<noteq> b" and tr: "tracks a b stg m fmt base na nb s"
    and gg: "game_stage g = stg" "match_format g = fmt"
  shows "\<exists>s'. handle_result g a b s = Inr s' \<and> tracks a b stg m fmt base (na + 1) nb s'"
proof -
  from tr obtain sc where sc: "score s = Some sc" "map_of sc a = Some na" "map_of sc b = Some nb"
    and st: "stage s = Some stg" "match_id s = Some m"
    by (auto simp: tracks_def)
  from handle_result_effect [OF sc, of g] obtain s' where
    run: "handle_result g a b s = Inr s'" and
    keep: "stage s' = stage s" "match_id s' = match_id s" "score s' = Some (dadd sc a 1)" and
    w: "wins s' = (if match_format g = ''regular'' then
                 (if na = nb then dadd (wins s) a 1
                  else if na = nb - 1 then dadd (wins s) b (- 1) else wins s)
               else wins s)" and
    l: "losses s' = (if match_format g = ''regular'' then
                 (if na = nb then dadd (losses s) b 1
                  else if na = nb - 1 then dadd (losses s) a (- 1) else losses s)
               else losses s)" and
    sw: "stage_wins s' = (if match_format g = ''regular'' then
                 (if na = nb then dadd (stage_wins s) a 1
                  else if na = nb - 1 then dadd (stage_wins s) b (- 1) else stage_wins s)
               else stage_wins s)" and
    sl: "stage_losses s' = (if match_format g = ''regular'' then
                 (if na = nb then dadd (stage_losses s) b 1
                  else if na = nb - 1 then dadd (stage_losses s) a (- 1) else stage_losses s)
               else stage_losses s)" and
    hh: "head_to_head_diffs s' = (if match_format g = ''regular'' \<and> (na = nb \<or> na = nb - 1) then
                 dadd (dadd (head_to_head_diffs s) (a, b) 1) (b, a) (- 1)
               else head_to_head_diffs s)" and
    tw: "stage_title_wins s' = (if match_format g \<noteq> ''regular'' \<and> str_in ''Title'' (game_stage g) then
                 (if na = nb then dadd (stage_title_wins s) a 1
                  else if na = nb - 1 then dadd (stage_title_wins s) b (- 1) else stage_title_wins s)
               else stage_title_wins s)" and
    tl: "stage_title_losses s' = (if match_format g \<noteq> ''regular'' \<and> str_in ''Title'' (game_stage g) then
                 (if na = nb then dadd (stage_title_losses s) b 1
                  else if na = nb - 1 then dadd (stage_title_losses s) a (- 1) else stage_title_losses s)
               else stage_title_losses s)" and
    pw: "playoff_wins s' = (if match_format g \<noteq> ''regular'' \<and> \<not> str_in ''Title'' (game_stage g) \<and>
                          match_format g = ''playoff'' then
                 (if na = nb then dadd (playoff_wins s) a 1
                  else if na = nb - 1 then dadd (playoff_wins s) b (- 1) else playoff_wins s)
               else playoff_wins s)" and
    pl: "playoff_losses s' = (if match_format g \<noteq> ''regular'' \<and> \<not> str_in ''Title'' (game_stage g) \<and>
                          match_format g = ''playoff'' then
                 (if na = nb then dadd (playoff_losses s) b 1
                  else if na = nb - 1 then dadd (playoff_losses s) a (- 1) else playoff_losses s)
               else playoff_losses s)"
    by blast
  have tally: "\<exists>sc'. score s' = Some sc' \<and> map_of sc' a = Some (na + 1) \<and> map_of sc' b = Some nb"
    using keep sc ab by (simp add: map_of_dadd dget_map_of)
  have c1: "dget (wins s') t =
      dget (wins base) t + (if fmt = ''regular'' then credit a b (na + 1) nb t else 0)" for t
    using tr ab by (simp add: w gg tracks_def credit_step_winner)
  have c2: "dget (losses s') t =
      dget (losses base) t + (if fmt = ''regular'' then credit b a (na + 1) nb t else 0)" for t
    using tr ab by (simp add: l gg tracks_def credit_step_loser)
  have c3: "dget (stage_wins s') t =
      dget (stage_wins base) t + (if fmt = ''regular'' then credit a b (na + 1) nb t else 0)" for t
    using tr ab by (simp add: sw gg tracks_def credit_step_winner)
  have c4: "dget (stage_losses s') t =
      dget (stage_losses base) t + (if fmt = ''regular'' then credit b a (na + 1) nb t else 0)" for t
    using tr ab by (simp add: sl gg tracks_def credit_step_loser)
  have c5: "dget (stage_title_wins s') t =
      dget (stage_title_wins base) t +
        (if fmt \<noteq> ''regular'' \<and> str_in ''Title'' stg then credit a b (na + 1) nb t else 0)" for t
    using tr ab by (simp add: tw gg tracks_def credit_step_winner)
  have c6: "dget (stage_title_losses s') t =
      dget (stage_title_losses base) t +
        (if fmt \<noteq> ''regular'' \<and> str_in ''Title'' stg then credit b a (na + 1) nb t else 0)" for t
    using tr ab by (simp add: tl gg tracks_def credit_step_loser)
  have c7: "dget (playoff_wins s') t =
      dget (playoff_wins base) t +
        (if fmt \<noteq> ''regular'' \<and> \<not> str_in ''Title'' stg \<and> fmt = ''playoff''
         then credit a b (na + 1) nb t else 0)" for t
    using tr ab by (simp add: pw gg tracks_def credit_step_winner)
  have c8: "dget (playoff_losses s') t =
      dget (playoff_losses base) t +
        (if fmt \<noteq> ''regular'' \<and> \<not> str_in ''Title'' stg \<and> fmt = ''playoff''
         then credit b a (na + 1) nb t else 0)" for t
    using tr ab by (simp add: pl gg tracks_def credit_step_loser)
  have c9: "dget (head_to_head_diffs s') (x, y) =
      dget (head_to_head_diffs base) (x, y) +
        (if fmt = ''regular'' then pair_credit a b (na + 1) nb (x, y) else 0)" for x y
    using tr ab pair_credit_step [of a b na nb "head_to_head_diffs s" "(x, y)"]
    by (simp add: hh gg tracks_def)
  show ?thesis
    unfolding run tracks_def
    using keep st tally c1 c2 c3 c4 c5 c6 c7 c8 c9 by simp
qed

lemma tracks_swap: "tracks a b stg m fmt base na nb s \<Longrightarrow> tracks b a stg m fmt base nb na s"
  unfolding tracks_def credit_swap [of b a] pair_credit_swap [of b a]
  by (simp add: conj_commute)

lemma tracks_step:
  assumes ab: "a \<noteq> b" and tr: "tracks a b stg m fmt base na nb s"
    and g: "match_game a b stg m fmt g"
  shows "\<exists>s'. update_standings g s = Inr s' \<and>
     tracks a b stg m fmt base
       (na + (if fst (game_score g) > snd (game_score g) then 1 else 0))
       (nb + (if fst (game_score g) > snd (game_score g) then 0 else 1)) s'"
proof -
  from tr have st: "stage s = Some stg" "match_id s = Some m"
    by (auto simp: tracks_def)
  from g have gg: "teams g = (a, b)" "game_stage g = stg" "game_match_id g = m"
    "match_format g = fmt" "fst (game_score g) \<noteq> snd (game_score g)"
    by (auto simp: match_game_def)
  have us: "update_standings g s = record_result g s"
    by (simp add: update_standings_def gg update_stage_same st update_match_ids_same)
  show ?thesis
  proof (cases "fst (game_score g) > snd (game_score g)")
    case True
    with tracks_handle_result [OF ab tr gg(2) gg(4)] show ?thesis
      by (simp add: us record_result_def gg)
  next
    case False
    from tracks_handle_result [OF ab [symmetric] tracks_swap [OF tr] gg(2) gg(4)]
    obtain s' where "handle_result g b a s = Inr s'" "tracks b a stg m fmt base (nb + 1) na s'"
      by blast
    with False gg(5) tracks_swap [of b a stg m fmt base "nb + 1" na s'] show ?thesis
      by (simp add: us record_result_def gg)
  qed
qed

lemma tracks_run:
  assumes ab: "a \<noteq> b" and gs: "list_all (match_game a b stg m fmt) gs"
    and tr: "tracks a b stg m fmt base na nb s"
  shows "\<exists>s'. update_standings_games gs s = Inr s' \<and>
     tracks a b stg m fmt base (na + first_wins gs) (nb + second_wins gs) s'"
  using gs tr
proof (induction gs arbitrary: s na nb)
  case Nil
  then show ?case by (simp add: first_wins_def second_wins_def)
next
  case (Cons g gs)
  from Cons.prems have g: "match_game a b stg m fmt g" and rest: "list_all (match_game a b stg m fmt) gs"
    by simp_all
  from tracks_step [OF ab Cons.prems(2) g] obtain s1 where
    s1: "update_standings g s = Inr s1" and
    tr1: "tracks a b stg m fmt base
       (na + (if fst (game_score g) > snd (game_score g) then 1 else 0))
       (nb + (if fst (game_score g) > snd (game_score g) then 0 else 1)) s1"
    by blast
  from Cons.IH [OF rest tr1] obtain s' where
    "update_standings_games gs s1 = Inr s'" and
    "tracks a b stg m fmt base
       (na + (if fst (game_score g) > snd (game_score g) then 1 else 0) + first_wins gs)
       (nb + (if fst (game_score g) > snd (game_score g) then 0 else 1) + second_wins gs) s'"
    by blast
  moreover from g have "fst (game_score g) \<noteq> snd (game_score g)"
    by (simp add: match_game_def)
  ultimately show ?case
    using s1 by (auto simp: first_wins_def second_wins_def add.assoc)
qed

lemma stage_update_stage: "stage (update_stage stg s) = Some stg"
  by (simp add: update_stage_def)

lemma stage_update_match_ids: "stage (update_match_ids m ts s) = stage s"
  by (simp add: update_match_ids_def append_history_def Let_def)

lemma match_id_update_match_ids: "match_id (update_match_ids m ts s) = Some m"
  by (simp add: update_match_ids_def append_history_def Let_def)

lemma update_standings_open: "update_standings g (open_match g s) = update_standings g s"
  by (simp add: update_standings_def open_match_def update_stage_same update_match_ids_same
      stage_update_stage stage_update_match_ids match_id_update_match_ids)

lemma tracks_open:
  assumes "a \<noteq> b" and "match_id s \<noteq> Some m" and "match_game a b stg m fmt g"
  shows "tracks a b stg m fmt (open_match g s) 0 0 (open_match g s)"
  using assms
  by (simp add: tracks_def open_match_def stage_update_stage stage_update_match_ids
      match_id_update_match_ids match_game_def credit_def pair_credit_def leads_def)
    (simp add: update_match_ids_def update_stage_def append_history_def Let_def)

lemma tracks_same_win_loss:
  "tracks a b stg m fmt base na nb s1 \<Longrightarrow> tracks a b stg m fmt base na nb s2 \<Longrightarrow>
   same_win_loss s1 s2"
  by (simp add: tracks_def same_win_loss_def)

lemma no_wins_no_games:
  assumes "list_all (match_game a b stg m fmt) gs" and "first_wins gs = 0" and "second_wins gs = 0"
  shows "gs = []"
proof (cases gs)
  case Nil
  then show ?thesis .
next
  case (Cons g gs')
  with assms(1) have "fst (game_score g) \<noteq> snd (game_score g)"
    by (simp add: match_game_def)
  with assms(2,3) Cons show ?thesis
    by (cases "fst (game_score g) > snd (game_score g)") (simp_all add: first_wins_def second_wins_def)
qed

lemma match_run:
  assumes ab: "a \<noteq> b" and gs: "list_all (match_game a b stg m fmt) (g # gs)"
    and fresh: "match_id s \<noteq> Some m"
  shows "\<exists>s'. update_standings_games (g # gs) s = Inr s' \<and>
     tracks a b stg m fmt
       (update_match_ids m (a, b) (update_stage stg s)) (first_wins (g # gs)) (second_wins (g # gs)) s'"
proof -
  from gs have g: "match_game a b stg m fmt g"
    by simp
  then have o: "open_match g s = update_match_ids m (a, b) (update_stage stg s)"
    by (simp add: open_match_def match_game_def)
  have "update_standings_games (g # gs) s = update_standings_games (g # gs) (open_match g s)"
    by (simp add: update_standings_open)
  with tracks_run [OF ab gs tracks_open [OF ab fresh g]] show ?thesis
    by (simp add: o)
qed

text \<open>
  Claim C2. Take a match between two distinct teams that the tracker has not open, and
  two sequences of its games (same teams, stage, match id and format, no drawn game) in
  which each side wins the same number of games, so that both end at the same tally;
  two orders of the same games are such sequences. Fed to \<^verbatim>\<open>_update_standings\<close> one
  game at a time from the same state, neither sequence raises, and the two final states
  agree on every win and loss counter: season, stage, head-to-head, title and playoff.
\<close>

theorem standings_depend_on_tally_only:
  assumes "a \<noteq> b"
    and "list_all (match_game a b stg m fmt) gs1"
    and "list_all (match_game a b stg m fmt) gs2"
    and "match_id s \<noteq> Some m"
    and "first_wins gs1 = first_wins gs2" and "second_wins gs1 = second_wins gs2"
  shows "\<exists>s1 s2. update_standings_games gs1 s = Inr s1 \<and>
                 update_standings_games gs2 s = Inr s2 \<and> same_win_loss s1 s2"
proof (cases gs1)
  case Nil
  then have "first_wins gs2 = 0" "second_wins gs2 = 0"
    using assms(5,6) by (simp_all add: first_wins_def second_wins_def)
  with assms(3) have "gs2 = []"
    by (rule no_wins_no_games)
  with Nil show ?thesis
    by (simp add: same_win_loss_def)
next
  case (Cons g1 r1)
  have "gs2 \<noteq> []"
  proof
    assume "gs2 = []"
    then have "first_wins gs1 = 0" "second_wins gs1 = 0"
      using assms(5,6) by (simp_all add: first_wins_def second_wins_def)
    with assms(2) have "gs1 = []"
      by (rule no_wins_no_games)
    with Cons show False by simp
  qed
  then obtain g2 r2 where Cons2: "gs2 = g2 # r2"
    by (cases gs2) auto
  from match_run [OF assms(1) assms(2) [unfolded Cons] assms(4)] obtain s1 where
    s1: "update_standings_games gs1 s = Inr s1"
      "tracks a b stg m fmt (update_match_ids m (a, b) (update_stage stg s))
         (first_wins gs1) (second_wins gs1) s1"
    unfolding Cons by blast
  from match_run [OF assms(1) assms(3) [unfolded Cons2] assms(4)] obtain s2 where
    s2: "update_standings_games gs2 s = Inr s2"
      "tracks a b stg m fmt (update_match_ids m (a, b) (update_stage stg s))
         (first_wins gs2) (second_wins gs2) s2"
    unfolding Cons2 by blast
  from s1 s2 assms(5,6) tracks_same_win_loss [of a b stg m fmt _ "first_wins gs1" "second_wins gs1" s1 s2]
  show ?thesis
    by simp
qed

text \<open>
  The theorem at a regular match that team A wins 3-2, with the games in two orders: in
  the first A falls behind after leading, in the second A comes from behind.
\<close>

theorem standings_depend_on_tally_only_witness:
  "''A'' \<noteq> ''B'' \<and>
   list_all (match_game ''A'' ''B'' ''Stage 1'' 1 ''regular'')
     [game_regular, game_regular_lost, game_regular_lost, game_regular, game_regular] \<and>
   list_all (match_game ''A'' ''B'' ''Stage 1'' 1 ''regular'')
     [game_regular_lost, game_regular, game_regular, game_regular_lost, game_regular] \<and>
   match_id (init_predictor 12) \<noteq> Some 1 \<and>
   (\<exists>s1 s2.
      update_standings_games
        [game_regular, game_regular_lost, game_regular_lost, game_regular, game_regular]
        (init_predictor 12) = Inr s1 \<and>
      update_standings_games
        [game_regular_lost, game_regular, game_regular, game_regular_lost, game_regular]
        (init_predictor 12) = Inr s2 \<and>
      same_win_loss s1 s2)"
proof -
  have ab: "''A'' \<noteq> ''B''"
    by simp
  have l1: "list_all (match_game ''A'' ''B'' ''Stage 1'' 1 ''regular'')
     [game_regular, game_regular_lost, game_regular_lost, game_regular, game_regular]"
    by (simp add: match_game_def example_defs)
  have l2: "list_all (match_game ''A'' ''B'' ''Stage 1'' 1 ''regular'')
     [game_regular_lost, game_regular, game_regular, game_regular_lost, game_regular]"
    by (simp add: match_game_def example_defs)
  have fresh: "match_id (init_predictor 12) \<noteq> Some 1"
    by (simp add: init_predictor_def)
  have f: "first_wins [game_regular, game_regular_lost, game_regular_lost, game_regular, game_regular] =
      first_wins [game_regular_lost, game_regular, game_regular, game_regular_lost, game_regular]"
    by (simp add: first_wins_def example_defs)
  have s: "second_wins [game_regular, game_regular_lost, game_regular_lost, game_regular, game_regular] =
      second_wins [game_regular_lost, game_regular, game_regular, game_regular_lost, game_regular]"
    by (simp add: second_wins_def example_defs)
  from standings_depend_on_tally_only [OF ab l1 l2 fresh f s] ab l1 l2 fresh show ?thesis
    by blast
qed

text \<open>In both orders A ends with the match win and B with the loss.\<close>

lemma example_runs:
  "dget (wins (standings_after [game_regular, game_regular_lost, game_regular_lost, game_regular, game_regular])) ''A'' = 1"
  "dget (wins (standings_after [game_regular, game_regular_lost, game_regular_lost, game_regular, game_regular])) ''B'' = 0"
  "dget (wins (standings_after [game_regular_lost, game_regular, game_regular, game_regular_lost, game_regular])) ''A'' = 1"
  "dget (losses (standings_after [game_regular_lost, game_regular, game_regular, game_regular_lost, game_regular])) ''B'' = 1"
  "dget (losses (standings_after [game_regular_lost, game_regular, game_regular, game_regular_lost, game_regular])) ''A'' = 0"
  by (simp_all add: example_defs standings_defs dget_def)

section \<open>Swapping the two teams of a prediction\<close>

lemma predict_ratings_swap:
  assumes sym: "\<forall>x. env_cdf e (- x) = 1 - env_cdf e x"
  shows "(\<exists>p_win p_draw p_win' p_draw'.
            predict_ratings cdm e r1 r2 = Inr (p_win, p_draw) \<and>
            predict_ratings cdm e r2 r1 = Inr (p_win', p_draw') \<and>
            p_win = 1 - p_win' - p_draw \<and> p_draw = p_draw') \<or>
         (predict_ratings cdm e r1 r2 = Inl ZeroDivisionError \<and>
          predict_ratings cdm e r2 r1 = Inl ZeroDivisionError)"
proof -
  define size where "size = length r1 + length r2"
  define delta where "delta = sum_list (map mu r1) - sum_list (map mu r2)"
  define margin where "margin = cdm (env_draw_probability e) size e"
  define denom where
    "denom = sqrt (real size * (env_beta e)\<^sup>2 + sum_list (map (\<lambda>r. (sigma r)\<^sup>2) (r1 @ r2)))"
  have fwd: "predict_ratings cdm e r1 r2 =
      (if denom = 0 then Inl ZeroDivisionError
       else Inr (env_cdf e ((delta - margin) / denom),
                 env_cdf e ((delta + margin) / denom) - env_cdf e ((delta - margin) / denom)))"
    by (simp add: predict_ratings_def Let_def size_def delta_def margin_def denom_def)
  have bwd: "predict_ratings cdm e r2 r1 =
      (if denom = 0 then Inl ZeroDivisionError
       else Inr (env_cdf e ((- delta - margin) / denom),
                 env_cdf e ((- delta + margin) / denom) - env_cdf e ((- delta - margin) / denom)))"
    by (simp add: predict_ratings_def Let_def size_def delta_def margin_def denom_def add.commute)
  have a: "(- delta - margin) / denom = - ((delta + margin) / denom)"
    unfolding minus_divide_left by simp
  have b: "(- delta + margin) / denom = - ((delta - margin) / denom)"
    unfolding minus_divide_left by simp
  show ?thesis
    unfolding fwd bwd a b using sym by simp
qed

text \<open>
  Claim C3. \<^verbatim>\<open>TrueSkillPredictor.predict\<close> for the teams in one order and in the
  other, in the same rating state and with the same drawable flag: either both calls
  divide by zero, or both return and \<open>p_win(A,B) = 1 - p_win(B,A) - p_draw(A,B)\<close> and
  \<open>p_draw(A,B) = p_draw(B,A)\<close>. The distribution function of each environment is
  the package's; the theorem asks of it what holds of the standard normal distribution
  function, \<open>cdf (- x) = 1 - cdf x\<close>. The draw margin may be any function of the draw
  probability, the size and the environment.
\<close>

theorem predict_swap_symmetry:
  assumes "\<forall>x. env_cdf (env_drawable s) (- x) = 1 - env_cdf (env_drawable s) x"
    and "\<forall>x. env_cdf (env_undrawable s) (- x) = 1 - env_cdf (env_undrawable s) x"
  shows "(\<exists>p_win p_draw p_win' p_draw'.
            trueskill_predict cdm s (a, b) rs frs d = Inr (p_win, p_draw) \<and>
            trueskill_predict cdm s (b, a) rs' frs' d = Inr (p_win', p_draw') \<and>
            p_win = 1 - p_win' - p_draw \<and> p_draw = p_draw') \<or>
         (trueskill_predict cdm s (a, b) rs frs d = Inl ZeroDivisionError \<and>
          trueskill_predict cdm s (b, a) rs' frs' d = Inl ZeroDivisionError)"
proof -
  have "\<forall>x. env_cdf (if d then env_drawable s else env_undrawable s) (- x) =
      1 - env_cdf (if d then env_drawable s else env_undrawable s) x"
    using assms by simp
  from predict_ratings_swap [OF this, of cdm "[ratings_get s a]" "[ratings_get s b]"]
  show ?thesis
    by (simp add: trueskill_predict_def teams_ratings_def)
qed

lemma example_cdf_symmetric: "example_cdf (- x) = 1 - example_cdf x"
  by (simp add: example_cdf_def field_simps)

text \<open>The theorem at two teams with different ratings, for a drawable game.\<close>

theorem predict_swap_symmetry_witness:
  "(\<forall>x. env_cdf (env_drawable example_trueskill) (- x) =
        1 - env_cdf (env_drawable example_trueskill) x) \<and>
   (\<forall>x. env_cdf (env_undrawable example_trueskill) (- x) =
        1 - env_cdf (env_undrawable example_trueskill) x) \<and>
   (\<exists>p_win p_draw p_win' p_draw'.
      trueskill_predict example_margin example_trueskill (''A'', ''B'') None None True =
        Inr (p_win, p_draw) \<and>
      trueskill_predict example_margin example_trueskill (''B'', ''A'') None None True =
        Inr (p_win', p_draw') \<and>
      p_win = 1 - p_win' - p_draw \<and> p_draw = p_draw')"
proof -
  have d: "\<forall>x. env_cdf (env_drawable example_trueskill) (- x) =
        1 - env_cdf (env_drawable example_trueskill) x"
    by (simp add: example_trueskill_def init_trueskill_predictor_def predictor.extend_def
        trueskill_predictor.defs example_cdf_symmetric)
  have u: "\<forall>x. env_cdf (env_undrawable example_trueskill) (- x) =
        1 - env_cdf (env_undrawable example_trueskill) x"
    by (simp add: example_trueskill_def init_trueskill_predictor_def predictor.extend_def
        trueskill_predictor.defs example_cdf_symmetric)
  have ok: "trueskill_predict example_margin example_trueskill (''A'', ''B'') None None True \<noteq>
      Inl ZeroDivisionError"
    by (simp add: trueskill_predict_def predict_ratings_def teams_ratings_def ratings_get_def
        example_trueskill_def init_trueskill_predictor_def predictor.extend_def
        trueskill_predictor.defs Let_def)
  from predict_swap_symmetry [OF d u, of example_margin "''A''" "''B''" None None True None None]
    d u ok
  show ?thesis
    by blast
qed

section \<open>Mass of the score distribution\<close>

lemma total_mass_dadd: "total_mass (dadd d k v) = total_mass d + v"
  by (induction d) (auto simp: total_mass_def dvalues_def)

lemma nonneg_dadd: "nonneg d \<Longrightarrow> 0 \<le> v \<Longrightarrow> nonneg (dadd d k v)"
  by (induction d) (auto simp: nonneg_def dvalues_def)

lemma total_mass_Nil: "total_mass [] = 0"
  by (simp add: total_mass_def dvalues_def)

lemma nonneg_Nil: "nonneg []"
  by (simp add: nonneg_def dvalues_def)

lemma fan_out_mass:
  "total_mass (fst (fan_out dr mw pw pd pl item acc)) + total_mass (snd (fan_out dr mw pw pd pl item acc)) =
   total_mass (fst acc) + total_mass (snd acc) + snd item * (pw + pl + (if dr then pd else 0))"
  by (simp add: fan_out_def Let_def total_mass_dadd algebra_simps)

lemma fan_out_nonneg:
  assumes "nonneg (fst acc)" "nonneg (snd acc)" "0 \<le> snd item" "0 \<le> pw" "0 \<le> pd" "0 \<le> pl"
  shows "nonneg (fst (fan_out dr mw pw pd pl item acc)) \<and> nonneg (snd (fan_out dr mw pw pd pl item acc))"
  using assms by (simp add: fan_out_def Let_def nonneg_dadd)

lemma fold_fan_out:
  assumes "nonneg (fst acc)" "nonneg (snd acc)" "nonneg items" "0 \<le> pw" "0 \<le> pd" "0 \<le> pl"
  shows "nonneg (fst (fold (fan_out dr mw pw pd pl) items acc)) \<and>
         nonneg (snd (fold (fan_out dr mw pw pd pl) items acc)) \<and>
         total_mass (fst (fold (fan_out dr mw pw pd pl) items acc)) +
           total_mass (snd (fold (fan_out dr mw pw pd pl) items acc)) =
         total_mass (fst acc) + total_mass (snd acc) +
           total_mass items * (pw + pl + (if dr then pd else 0))"
  using assms(1-3)
proof (induction items arbitrary: acc)
  case Nil
  then show ?case by (simp add: total_mass_Nil)
next
  case (Cons item items)
  from Cons.prems(3) have i: "0 \<le> snd item" and rest: "nonneg items"
    by (simp_all add: nonneg_def dvalues_def)
  from fan_out_nonneg [OF Cons.prems(1,2) i assms(4-6)]
  have n: "nonneg (fst (fan_out dr mw pw pd pl item acc))"
    "nonneg (snd (fan_out dr mw pw pd pl item acc))"
    by simp_all
  have split: "total_mass (item # items) = snd item + total_mass items"
    by (simp add: total_mass_def dvalues_def)
  from Cons.IH [OF n rest] fan_out_mass [of dr mw pw pd pl item acc] show ?case
    by (simp add: split algebra_simps)
qed

lemma play_game_live:
  assumes "fair pu pd" and "live st"
  shows "live (play_game pu pd mw dr st)"
proof -
  define pw where "pw = fst (if dr then pd else pu)"
  define pdr where "pdr = snd (if dr then pd else pu)"
  define pl where "pl = 1 - pw - pdr"
  from assms(1) have p: "0 \<le> pw" "0 \<le> pdr" "0 \<le> pl" "pw + pl + (if dr then pdr else 0) = 1"
    by (auto simp: fair_def pw_def pdr_def pl_def)
  from assms(2) have s: "nonneg (fst ([], fst (snd st)))" "nonneg (snd ([], fst (snd st)))" "nonneg (fst st)"
    by (simp_all add: live_def nonneg_Nil)
  from fold_fan_out [OF s p(1-3), of dr mw] p(4) assms(2) show ?thesis
    by (simp add: live_def play_game_def Let_def pw_def [symmetric] pdr_def [symmetric]
        pl_def [symmetric] total_mass_Nil)
qed

lemma fold_play_game_live:
  assumes "fair pu pd" and "live st"
  shows "live (fold (play_game pu pd mw) ds st)"
  using assms(2) by (induction ds arbitrary: st) (simp_all add: play_game_live [OF assms(1)])

lemma fold_play_game_p_loss:
  assumes "ds \<noteq> []" and "\<not> last ds"
  shows "snd (snd (fold (play_game pu pd mw) ds st)) = Some (1 - fst pu - snd pu)"
proof -
  from assms(1) have "ds = butlast ds @ [last ds]"
    by simp
  then have "fold (play_game pu pd mw) ds st =
      play_game pu pd mw (last ds) (fold (play_game pu pd mw) (butlast ds) st)"
    by (metis fold_append fold_simps comp_apply id_apply)
  with assms(2) show ?thesis
    by (simp add: play_game_def Let_def)
qed

lemma fold_tie_break:
  assumes "nonneg acc" "nonneg items" "0 \<le> pw" "0 \<le> pl" "pw + pl = 1"
  shows "nonneg (fold (tie_break pw pl) items acc) \<and>
         total_mass (fold (tie_break pw pl) items acc) = total_mass acc + total_mass items"
  using assms(1,2)
proof (induction items arbitrary: acc)
  case Nil
  then show ?case by (simp add: total_mass_Nil)
next
  case (Cons item items)
  from Cons.prems(2) have i: "0 \<le> snd item" and rest: "nonneg items"
    by (simp_all add: nonneg_def dvalues_def)
  have n: "nonneg (tie_break pw pl item acc)"
    using Cons.prems(1) i assms(3,4) by (simp add: tie_break_def Let_def nonneg_dadd)
  have "snd item * pw + snd item * pl = snd item"
    using assms(5) by (simp add: distrib_left [symmetric])
  then have m: "total_mass (tie_break pw pl item acc) = total_mass acc + snd item"
    by (simp add: tie_break_def Let_def total_mass_dadd)
  have split: "total_mass (item # items) = snd item + total_mass items"
    by (simp add: total_mass_def dvalues_def)
  from Cons.IH [OF n rest] m show ?case
    by (simp add: split)
qed

lemma fold_merge:
  assumes "nonneg acc" "nonneg items"
  shows "nonneg (fold (\<lambda>item d. dadd d (fst item) (snd item)) items acc) \<and>
         total_mass (fold (\<lambda>item d. dadd d (fst item) (snd item)) items acc) =
           total_mass acc + total_mass items"
  using assms
proof (induction items arbitrary: acc)
  case Nil
  then show ?case by (simp add: total_mass_Nil)
next
  case (Cons item items)
  from Cons.prems(2) have i: "0 \<le> snd item" and rest: "nonneg items"
    by (simp_all add: nonneg_def dvalues_def)
  have split: "total_mass (item # items) = snd item + total_mass items"
    by (simp add: total_mass_def dvalues_def)
  from Cons.IH [OF nonneg_dadd [OF Cons.prems(1) i] rest] show ?case
    by (simp add: split total_mass_dadd)
qed

lemma bo_score_mass:
  assumes f: "fair pu pd" and ds: "ds \<noteq> []" "\<not> last ds"
  shows "\<exists>d. bo_score pu pd ds mw = Inr d \<and> total_mass d = 1 \<and> nonneg d"
proof -
  define st where "st = fold (play_game pu pd mw) ds ([((0, 0), 1)], [], None)"
  have "live ([((0, 0), 1)], [], None)"
    by (simp add: live_def nonneg_def total_mass_def dvalues_def)
  from fold_play_game_live [OF f this] have l: "live st"
    by (simp add: st_def)
  have pl: "snd (snd st) = Some (1 - fst pu - snd pu)"
    unfolding st_def by (rule fold_play_game_p_loss [OF ds])
  from f have p: "0 \<le> fst pu" "0 \<le> 1 - fst pu - snd pu" "fst pu + (1 - fst pu - snd pu) = 1"
    by (simp_all add: fair_def)
  from l have n: "nonneg (fst st)" "nonneg (fst (snd st))"
    and m: "total_mass (fst st) + total_mass (fst (snd st)) = 1"
    by (simp_all add: live_def)
  from fold_tie_break [OF nonneg_Nil n(1) p]
  have t: "nonneg (fold (tie_break (fst pu) (1 - fst pu - snd pu)) (fst st) [])"
    "total_mass (fold (tie_break (fst pu) (1 - fst pu - snd pu)) (fst st) []) = total_mass (fst st)"
    by (simp_all add: total_mass_Nil)
  from fold_merge [OF t(1) n(2)] t(2) m show ?thesis
    by (simp add: bo_score_def Let_def st_def [symmetric] pl)
qed

text \<open>
  Claim C1, as the code has it. For each of the four supported formats, when the
  undrawable prediction is a win probability in [0, 1] with draw probability zero and
  the drawable prediction is a pair of non-negative probabilities whose sum is at most
  one, \<^verbatim>\<open>predict_match_score\<close> returns a distribution in which no score has a negative
  probability and the probabilities sum to one (over the reals).
\<close>

theorem score_distribution_sums_to_one:
  assumes "match_format m = ''preseason'' \<or> match_format m = ''regular'' \<or>
           match_format m = ''best-of-5'' \<or> match_format m = ''best-of-7''"
    and "predict s (teams m) (rosters m) (full_rosters m) False = Inr (w_u, 0)"
    and "predict s (teams m) (rosters m) (full_rosters m) True = Inr (w_d, d_d)"
    and "0 \<le> w_u" and "w_u \<le> 1" and "0 \<le> w_d" and "0 \<le> d_d" and "w_d + d_d \<le> 1"
  shows "\<exists>d. predict_match_score predict s m = Inr d \<and> total_mass d = 1 \<and>
             list_all (\<lambda>v. 0 \<le> v) (dvalues d)"
proof -
  have f: "fair (w_u, 0) (w_d, d_d)"
    using assms(4-8) by (simp add: fair_def)
  note b = bo_score_mass [OF f, unfolded nonneg_def]
  from assms(1) consider "match_format m = ''preseason'' \<or> match_format m = ''regular''"
    | "match_format m = ''best-of-5''" | "match_format m = ''best-of-7''"
    by blast
  then show ?thesis
  proof cases
    case 1
    with b [of "[True, False, True, False]" 4] show ?thesis
      by (simp add: predict_match_score_def predict_bo_score_def assms(2,3))
  next
    case 2
    with b [of "[False, False, False, False, False]" 3] show ?thesis
      by (simp add: predict_match_score_def predict_bo_score_def assms(2,3))
  next
    case 3
    with b [of "[False, False, False, False, False, False, False]" 4] show ?thesis
      by (simp add: predict_match_score_def predict_bo_score_def assms(2,3))
  qed
qed

text \<open>
  The theorem at a regular match with win probability 3/5 in an undrawable game, and win
  probability 1/2 and draw probability 1/4 in a drawable one.
\<close>

theorem score_distribution_sums_to_one_witness:
  "match_format game_regular = ''regular'' \<and>
   example_predict (init_predictor 12) (teams game_regular) (rosters game_regular)
     (full_rosters game_regular) False = Inr (3 / 5, 0) \<and>
   example_predict (init_predictor 12) (teams game_regular) (rosters game_regular)
     (full_rosters game_regular) True = Inr (1 / 2, 1 / 4) \<and>
   (\<exists>d. predict_match_score example_predict (init_predictor 12) game_regular = Inr d \<and>
        total_mass d = 1 \<and> list_all (\<lambda>v. 0 \<le> v) (dvalues d))"
proof -
  have fmt: "match_format game_regular = ''regular''"
    by (simp add: example_defs)
  have u: "example_predict (init_predictor 12) (teams game_regular) (rosters game_regular)
     (full_rosters game_regular) False = Inr (3 / 5, 0)"
    by (simp add: example_predict_def)
  have d: "example_predict (init_predictor 12) (teams game_regular) (rosters game_regular)
     (full_rosters game_regular) True = Inr (1 / 2, 1 / 4)"
    by (simp add: example_predict_def)
  from score_distribution_sums_to_one
      [of game_regular example_predict "init_predictor 12" "3 / 5" "1 / 2" "1 / 4"] fmt u d
  show ?thesis
    by simp
qed

text \<open>
  Against claim C1 as stated: the probabilities \<open>p_win = 1/2\<close> and \<open>p_draw = 1/2\<close>
  satisfy the claim's three conditions, but in a best-of-5 every game is undrawable and
  the loop never adds the draw branch, so the draw mass is dropped: the returned
  distribution sums to 1/8.
\<close>

theorem undrawable_draw_mass_is_lost:
  "match_format game_best_of_5 = ''best-of-5'' \<and>
   drawing_predict (init_predictor 12) (teams game_best_of_5) (rosters game_best_of_5)
     (full_rosters game_best_of_5) False = Inr (1 / 2, 1 / 2) \<and>
   predict_match_score drawing_predict (init_predictor 12) game_best_of_5 =
     Inr [((3, 0), 1 / 8), ((0, 3), 0), ((3, 1), 0), ((1, 3), 0), ((3, 2), 0), ((2, 3), 0)] \<and>
   total_mass [((3, 0), 1 / 8), ((0, 3), 0), ((3, 1), 0), ((1, 3), 0), ((3, 2), 0), ((2, 3), 0)] =
     1 / 8"
  by (simp add: example_defs predict_match_score_def predict_bo_score_def drawing_predict_def
      bo_score_def play_game_def fan_out_def tie_break_def Let_def total_mass_def dvalues_def)

section \<open>Certain outcomes of a stage\<close>

lemma keys_dset':
  "map fst (dset d k v) = (if map_of d k = None then map fst d @ [k] else map fst d)"
  by (induction d) auto

lemma keys_dset: "map fst (dset d k v) = (if k \<in> fst ` set d then map fst d else map fst d @ [k])"
  by (simp add: keys_dset' map_of_eq_None_iff)

lemma fold_dset_map_of:
  "map_of (fold (\<lambda>k d. dset d k (f k)) ks d0) k =
    (if k \<in> set ks then Some (f k) else map_of d0 k)"
  by (induction ks arbitrary: d0) (auto simp: map_of_dset)

lemma fold_dset_distinct:
  "distinct (map fst d0) \<Longrightarrow> distinct (map fst (fold (\<lambda>k d. dset d k (f k)) ks d0))"
  by (induction ks arbitrary: d0) (auto simp: keys_dset)

lemma fold_dset_keys:
  "map fst d0 = map fst d1 \<Longrightarrow>
   map fst (fold (\<lambda>k d. dset d k (f k)) ks d0) = map fst (fold (\<lambda>k d. dset d k (g k)) ks d1)"
proof (induction ks arbitrary: d0 d1)
  case Nil
  then show ?case by simp
next
  case (Cons k ks)
  from Cons.prems have "fst ` set d0 = fst ` set d1"
    by (metis list.set_map)
  with Cons.prems have "map fst (dset d0 k (f k)) = map fst (dset d1 k (g k))"
    by (simp add: keys_dset)
  from Cons.IH [OF this] show ?case by simp
qed

lemma map_of_dict_of: "map_of (dict_of f ks) k = (if k \<in> set ks then Some (f k) else None)"
  by (simp add: dict_of_def fold_dset_map_of)

lemma distinct_dict_of: "distinct (map fst (dict_of f ks))"
  by (simp add: dict_of_def fold_dset_distinct)

lemma keys_dict_of: "map fst (dict_of f ks) = map fst (dict_of g ks)"
  unfolding dict_of_def by (rule fold_dset_keys) simp

lemma set_keys_dict_of: "set (map fst (dict_of f ks)) = set ks"
proof -
  have "k \<in> fst ` set (dict_of f ks) \<longleftrightarrow> k \<in> set ks" for k
    using map_of_dict_of [of f ks k] map_of_eq_None_iff [of "dict_of f ks" k]
    by (cases "k \<in> set ks") simp_all
  then show ?thesis by auto
qed

lemma dict_eqI:
  "distinct (map fst xs) \<Longrightarrow> map fst xs = map fst ys \<Longrightarrow> (\<And>k. map_of xs k = map_of ys k) \<Longrightarrow>
   xs = ys"
proof (induction xs arbitrary: ys)
  case Nil
  then show ?case by simp
next
  case (Cons x xs)
  from Cons.prems(2) obtain y ys' where ys: "ys = y # ys'" and k: "fst x = fst y"
    and keys: "map fst xs = map fst ys'"
    by (cases ys) auto
  from Cons.prems(3) [of "fst x"] ys k have v: "snd x = snd y"
    by (cases x; cases y) simp
  have "map_of xs k' = map_of ys' k'" for k'
  proof (cases "k' = fst x")
    case True
    with Cons.prems(1) have "k' \<notin> fst ` set xs"
      by simp
    moreover from this keys have "k' \<notin> fst ` set ys'"
      by (metis list.set_map)
    ultimately have "map_of xs k' = None" "map_of ys' k' = None"
      by (simp_all add: map_of_eq_None_iff)
    then show ?thesis
      by simp
  next
    case False
    with Cons.prems(3) [of k'] ys k show ?thesis
      by (cases x; cases y) auto
  qed
  with Cons.IH [of ys'] Cons.prems(1) keys have "xs = ys'"
    by simp
  with ys k v show ?case
    by (cases x; cases y) simp
qed

lemma dvalues_dict_of: "dvalues (dict_of f ks) = map f (map fst (dict_of f ks))"
proof -
  have "\<And>k v. (k, v) \<in> set (dict_of f ks) \<Longrightarrow> v = f k"
  proof -
    fix k v assume "(k, v) \<in> set (dict_of f ks)"
    with distinct_dict_of [of f ks] have "map_of (dict_of f ks) k = Some v"
      by simp
    then show "v = f k"
      by (simp add: map_of_dict_of split: if_splits)
  qed
  then show ?thesis
    by (auto simp: dvalues_def)
qed

lemma bound_team_shifted:
  assumes "bound_team t b = Inr b'"
  shows "shifted (\<lambda>k. if k = t then 1 else 0) b b'"
proof -
  from assms obtain lo hi where lo: "map_of (fst b) t = Some lo" and hi: "map_of (snd b) t = Some hi"
    and b': "b' = (dset (fst b) t (fst lo, snd lo - 4), dset (snd b) t (fst hi + 1, snd hi + 4))"
    by (auto simp: bound_team_def split: option.splits)
  from lo hi have "t \<in> fst ` set (fst b)" "t \<in> fst ` set (snd b)"
    by (metis map_of_eq_None_iff option.distinct(1))+
  then have keys: "map fst (fst b') = map fst (fst b)" "map fst (snd b') = map fst (snd b)"
    by (simp_all add: b' keys_dset)
  have "map_of (fst b') k = map_option (\<lambda>p. (fst p, snd p - 4 * (if k = t then 1 else 0))) (map_of (fst b) k)" for k
    using lo by (cases "k = t") (simp_all add: b' map_of_dset option.map_ident)
  moreover have "map_of (snd b') k =
      map_option (\<lambda>p. (fst p + (if k = t then 1 else 0), snd p + 4 * (if k = t then 1 else 0))) (map_of (snd b) k)" for k
    using hi by (cases "k = t") (simp_all add: b' map_of_dset option.map_ident)
  ultimately show ?thesis
    using keys by (simp add: shifted_def)
qed

lemma shifted_trans:
  assumes "shifted c b b1" and "shifted c' b1 b2"
  shows "shifted (\<lambda>k. c k + c' k) b b2"
  using assms
  by (simp add: shifted_def option.map_comp comp_def algebra_simps)

lemma shifted_refl: "shifted (\<lambda>k. 0) b b"
  by (simp add: shifted_def option.map_ident)

lemma appearances_Nil: "appearances [] t = 0"
  by (simp add: appearances_def)

lemma appearances_Cons:
  "appearances (m # ms) t =
    (if t = fst (teams m) then 1 else 0) + (if t = snd (teams m) then 1 else 0) + appearances ms t"
  by (simp add: appearances_def)

lemma bound_matches_shifted:
  "bound_matches ms b = Inr b' \<Longrightarrow> shifted (appearances ms) b b'"
proof (induction ms arbitrary: b)
  case Nil
  then show ?case
    using shifted_refl [of b] by (simp add: appearances_Nil [abs_def])
next
  case (Cons m ms)
  from Cons.prems obtain b1 b2 where
    b1: "bound_team (fst (teams m)) b = Inr b1" and
    b2: "bound_team (snd (teams m)) b1 = Inr b2" and
    rest: "bound_matches ms b2 = Inr b'"
    by (auto split: sum.splits)
  from shifted_trans [OF shifted_trans [OF bound_team_shifted [OF b1] bound_team_shifted [OF b2]]
      Cons.IH [OF rest]]
  show ?case
    by (simp add: appearances_Cons [abs_def])
qed

lemma bounds_of_table:
  assumes "bound_matches ms (dict_of (stage_standing s) ks, dict_of (stage_standing s) ks) = Inr b"
  shows "fst b = dict_of (worst_standing s ms) ks" and "snd b = dict_of (best_standing s ms) ks"
proof -
  from bound_matches_shifted [OF assms] have
    k1: "map fst (fst b) = map fst (dict_of (stage_standing s) ks)" and
    k2: "map fst (snd b) = map fst (dict_of (stage_standing s) ks)" and
    m1: "\<And>k. map_of (fst b) k = map_option (\<lambda>p. (fst p, snd p - 4 * appearances ms k))
            (map_of (dict_of (stage_standing s) ks) k)" and
    m2: "\<And>k. map_of (snd b) k =
            map_option (\<lambda>p. (fst p + appearances ms k, snd p + 4 * appearances ms k))
            (map_of (dict_of (stage_standing s) ks) k)"
    by (simp_all add: shifted_def)
  show "fst b = dict_of (worst_standing s ms) ks"
  proof (rule dict_eqI)
    show "distinct (map fst (fst b))"
      by (simp add: k1 distinct_dict_of)
    show "map fst (fst b) = map fst (dict_of (worst_standing s ms) ks)"
      unfolding k1 by (rule keys_dict_of)
    show "map_of (fst b) k = map_of (dict_of (worst_standing s ms) ks) k" for k
      by (simp add: m1 map_of_dict_of worst_standing_def stage_standing_def)
  qed
  show "snd b = dict_of (best_standing s ms) ks"
  proof (rule dict_eqI)
    show "distinct (map fst (snd b))"
      by (simp add: k2 distinct_dict_of)
    show "map fst (snd b) = map fst (dict_of (best_standing s ms) ks)"
      unfolding k2 by (rule keys_dict_of)
    show "map_of (snd b) k = map_of (dict_of (best_standing s ms) ks) k" for k
      by (simp add: m2 map_of_dict_of best_standing_def stage_standing_def)
  qed
qed

lemma count_above_sorted:
  fixes xs :: "('a::linorder) list"
  assumes "sorted xs" and "i < length xs"
  shows "length (filter (\<lambda>y. xs ! i < y) xs) \<le> length xs - Suc i"
proof -
  have "\<forall>y \<in> set (take (Suc i) xs). \<not> xs ! i < y"
  proof
    fix y assume "y \<in> set (take (Suc i) xs)"
    then obtain j where "j < Suc i" "j < length xs" "y = xs ! j"
      by (auto simp: in_set_conv_nth)
    with assms show "\<not> xs ! i < y"
      by (simp add: sorted_nth_mono not_less)
  qed
  then have "filter (\<lambda>y. xs ! i < y) (take (Suc i) xs) = []"
    by (simp add: filter_empty_conv)
  moreover have "filter (\<lambda>y. xs ! i < y) xs =
      filter (\<lambda>y. xs ! i < y) (take (Suc i) xs) @ filter (\<lambda>y. xs ! i < y) (drop (Suc i) xs)"
    by (metis append_take_drop_id filter_append)
  ultimately have "length (filter (\<lambda>y. xs ! i < y) xs) =
      length (filter (\<lambda>y. xs ! i < y) (drop (Suc i) xs))"
    by simp
  also have "\<dots> \<le> length (drop (Suc i) xs)"
    by (rule length_filter_le)
  finally show ?thesis by simp
qed

lemma count_from_sorted:
  fixes xs :: "('a::linorder) list"
  assumes "sorted xs" and "i < length xs"
  shows "length xs - i \<le> length (filter (\<lambda>y. xs ! i \<le> y) xs)"
proof -
  have "\<forall>y \<in> set (drop i xs). xs ! i \<le> y"
  proof
    fix y assume "y \<in> set (drop i xs)"
    then obtain j where "j < length xs - i" "y = xs ! (i + j)"
      by (auto simp: in_set_conv_nth)
    with assms show "xs ! i \<le> y"
      by (simp add: sorted_nth_mono)
  qed
  then have "filter (\<lambda>y. xs ! i \<le> y) (drop i xs) = drop i xs"
    by (simp add: filter_id_conv)
  moreover have "filter (\<lambda>y. xs ! i \<le> y) xs =
      filter (\<lambda>y. xs ! i \<le> y) (take i xs) @ filter (\<lambda>y. xs ! i \<le> y) (drop i xs)"
    by (metis append_take_drop_id filter_append)
  ultimately have "length (drop i xs) \<le> length (filter (\<lambda>y. xs ! i \<le> y) xs)"
    by simp
  then show ?thesis by simp
qed

lemma length_filter_sort:
  fixes xs :: "('a::linorder) list"
  shows "length (filter P (sort xs)) = length (filter P xs)"
  by (simp add: filter_sort)

lemma length_filter_mono:
  "(\<And>x. x \<in> set xs \<Longrightarrow> P x \<Longrightarrow> Q x) \<Longrightarrow> length (filter P xs) \<le> length (filter Q xs)"
  by (induction xs) auto

lemma length_filter_extra:
  assumes "t \<in> set xs" and "\<not> P t"
  shows "Suc (length (filter P xs)) \<le> length (filter (\<lambda>x. P x \<or> x = t) xs)"
  using assms
proof (induction xs)
  case Nil
  then show ?case by simp
next
  case (Cons x xs)
  show ?case
  proof (cases "x = t")
    case True
    have "length (filter P xs) \<le> length (filter (\<lambda>x. P x \<or> x = t) xs)"
      by (rule length_filter_mono) simp
    with True Cons.prems(2) show ?thesis by simp
  next
    case False
    with Cons show ?thesis by auto
  qed
qed

lemma clinched_not_eliminated:
  fixes lo hi :: "'k \<Rightarrow> ('a::linorder)"
  assumes le: "\<And>k. lo k \<le> hi k" and n: "9 \<le> length ks" and t: "t \<in> set ks"
    and c: "sort (map hi ks) ! (length ks - 9) < lo t"
  shows "\<not> hi t < sort (map lo ks) ! (length ks - 8)"
proof
  let ?lo8 = "sort (map lo ks) ! (length ks - 8)"
  let ?hi9 = "sort (map hi ks) ! (length ks - 9)"
  assume e: "hi t < ?lo8"
  have "length (sort (map lo ks)) - (length ks - 8) \<le>
      length (filter (\<lambda>y. ?lo8 \<le> y) (sort (map lo ks)))"
    by (rule count_from_sorted) (use n in simp_all)
  with n have a: "8 \<le> length (filter (\<lambda>k. ?lo8 \<le> lo k) ks)"
    by (simp add: length_filter_sort filter_map comp_def)
  have "length (filter (\<lambda>y. ?hi9 < y) (sort (map hi ks))) \<le>
      length (sort (map hi ks)) - Suc (length ks - 9)"
    by (rule count_above_sorted) (use n in simp_all)
  with n have b: "length (filter (\<lambda>k. ?hi9 < hi k) ks) \<le> 8"
    by (simp add: length_filter_sort filter_map comp_def)
  from e le [of t] have nt: "\<not> ?lo8 \<le> lo t"
    by (meson le_less_trans not_le)
  have "length (filter (\<lambda>k. ?lo8 \<le> lo k \<or> k = t) ks) \<le> length (filter (\<lambda>k. ?hi9 < hi k) ks)"
  proof (rule length_filter_mono)
    fix k assume "?lo8 \<le> lo k \<or> k = t"
    then show "?hi9 < hi k"
    proof
      assume "?lo8 \<le> lo k"
      with c le [of t] e le [of k] show ?thesis
        by (meson le_less_trans less_le_trans less_trans)
    next
      assume "k = t"
      with c le [of t] show ?thesis
        by (meson less_le_trans)
    qed
  qed
  with length_filter_extra [of t ks "\<lambda>k. ?lo8 \<le> lo k", OF t nt] a b show False
    by simp
qed

lemma worst_le_best: "worst_standing s ms t \<le> best_standing s ms t"
proof -
  have "0 \<le> appearances ms t"
    by (simp add: appearances_def)
  then show ?thesis
    by (auto simp: worst_standing_def best_standing_def less_eq_prod_def)
qed

lemma normalize_all_entry:
  assumes "normalize_all s b lo8 hi9 items prediction = Inr result"
    and "distinct (map fst items)"
  shows "(map_of items t = None \<longrightarrow> map_of result t = map_of prediction t) \<and>
         (\<forall>pp. map_of items t = Some pp \<longrightarrow>
               (\<exists>v. normalize s b lo8 hi9 t pp = Inr v \<and> map_of result t = Some v))"
  using assms
proof (induction items arbitrary: prediction)
  case Nil
  then show ?case by simp
next
  case (Cons item items)
  from Cons.prems(1) obtain v where
    v: "normalize s b lo8 hi9 (fst item) (snd item) = Inr v" and
    rest: "normalize_all s b lo8 hi9 items (dset prediction (fst item) v) = Inr result"
    by (auto split: sum.splits)
  from Cons.prems(2) have d: "distinct (map fst items)" and fresh: "fst item \<notin> fst ` set items"
    by simp_all
  note ih = Cons.IH [OF rest d]
  show ?case
  proof (cases "t = fst item")
    case True
    with fresh have "map_of items t = None"
      by (simp add: map_of_eq_None_iff)
    with ih have "map_of result t = Some v"
      by (simp add: True map_of_dset)
    with v True show ?thesis
      by (cases item) auto
  next
    case False
    with ih show ?thesis
      by (cases item) (auto simp: map_of_dset)
  qed
qed

lemma sorted_from_end_Inr:
  assumes "sorted_from_end k xs = Inr v"
  shows "k \<le> length xs \<and> v = sort xs ! (length xs - k)"
  using assms by (simp add: sorted_from_end_def split: if_splits)

lemma kth_largest_sort:
  assumes "0 < k" and "k \<le> length (dict_of f ks)"
  shows "kth_largest k f ks = sort (dvalues (dict_of f ks)) ! (length (dict_of f ks) - k)"
proof -
  have "length (sort (dvalues (dict_of f ks))) = length (dict_of f ks)"
    by (simp add: dvalues_def)
  with assms show ?thesis
    by (simp add: kth_largest_def rev_nth)
qed

text \<open>
  Claim C6. Let \<^verbatim>\<open>predict_stage\<close> return, and let \<open>t\<close> be one of \<open>TEAMS\<close>. The
  remaining matches are the regular matches of the current stage; a team's best possible
  standing credits it one win and four maps for each of them it plays, its worst
  possible standing takes four maps off for each. If the best possible standing of
  \<open>t\<close> is below the 8th largest worst possible standing, both returned values are
  \<^verbatim>\<open>False\<close>. If its worst possible standing is above the 9th largest best possible
  standing, the first value is \<^verbatim>\<open>True\<close> (the two conditions exclude each other, so
  the \<^verbatim>\<open>elif\<close> loses nothing), and the second is \<^verbatim>\<open>False\<close> when \<open>t\<close> has a
  stage-title loss, and otherwise \<^verbatim>\<open>True\<close> when the stage is finished. The stage is
  finished exactly when the stage-title losses sum to 3.
\<close>

theorem predict_stage_forces_certain_outcomes:
  assumes "predict_stage TEAMS estimate s matches = Inr result" and "t \<in> set TEAMS"
  shows "\<exists>p_title p_top1.
     map_of result t = Some (p_title, p_top1) \<and>
     (best_standing s (remaining s matches) t
        < kth_largest 8 (worst_standing s (remaining s matches)) TEAMS \<longrightarrow>
      p_title = Flag False \<and> p_top1 = Flag False) \<and>
     (kth_largest 9 (best_standing s (remaining s matches)) TEAMS
        < worst_standing s (remaining s matches) t \<longrightarrow>
      p_title = Flag True \<and>
      (0 < dget (stage_title_losses s) t \<longrightarrow> p_top1 = Flag False) \<and>
      (\<not> 0 < dget (stage_title_losses s) t \<and> stage_finished s \<longrightarrow> p_top1 = Flag True)) \<and>
     (stage_finished s \<longleftrightarrow> sum_list (dvalues (stage_title_losses s)) = 3)"
proof -
  let ?ms = "remaining s matches"
  let ?worst = "worst_standing s ?ms" and ?best = "best_standing s ?ms"
  let ?prediction = "\<lambda>est. dict_of (\<lambda>t. (Prob (fst (est t)), Prob (snd (est t)))) TEAMS"
  from assms(1) obtain est b lo8 hi9 where
    b: "bound_matches ?ms (dict_of (stage_standing s) TEAMS, dict_of (stage_standing s) TEAMS) = Inr b"
    and lo8: "sorted_from_end 8 (dvalues (fst b)) = Inr lo8"
    and hi9: "sorted_from_end 9 (dvalues (snd b)) = Inr hi9"
    and run: "normalize_all s b lo8 hi9 (?prediction est) (?prediction est) = Inr result"
    by (auto simp: predict_stage_def Let_def split: sum.splits)
  note bd = bounds_of_table [OF b]
  let ?ks = "map fst (dict_of ?worst TEAMS)"
  have ks: "map fst (dict_of ?best TEAMS) = ?ks"
    by (rule keys_dict_of)
  have vw: "dvalues (dict_of ?worst TEAMS) = map ?worst ?ks"
    by (rule dvalues_dict_of)
  have vb: "dvalues (dict_of ?best TEAMS) = map ?best ?ks"
    using dvalues_dict_of [of ?best TEAMS] by (simp add: ks)
  have lenb: "length (dict_of ?best TEAMS) = length (dict_of ?worst TEAMS)"
    using arg_cong [OF ks, of length] by simp
  from sorted_from_end_Inr [OF lo8] have n8: "8 \<le> length ?ks"
    and lo8_eq: "lo8 = sort (map ?worst ?ks) ! (length ?ks - 8)"
    by (simp_all add: bd vw)
  from sorted_from_end_Inr [OF hi9] have n9: "9 \<le> length ?ks"
    and hi9_eq: "hi9 = sort (map ?best ?ks) ! (length ?ks - 9)"
    by (simp_all add: bd vb lenb)
  have k8: "kth_largest 8 ?worst TEAMS = lo8"
    using kth_largest_sort [of 8 ?worst TEAMS] n8 by (simp add: vw lo8_eq)
  have k9: "kth_largest 9 ?best TEAMS = hi9"
    using kth_largest_sort [of 9 ?best TEAMS] n9 by (simp add: vb hi9_eq lenb)
  from assms(2) have tk: "t \<in> set ?ks"
    by (simp only: set_keys_dict_of)
  have excl: "hi9 < ?worst t \<Longrightarrow> \<not> ?best t < lo8"
    unfolding lo8_eq hi9_eq
    by (rule clinched_not_eliminated [OF worst_le_best n9 tk])
  from assms(2) have "map_of (?prediction est) t = Some (Prob (fst (est t)), Prob (snd (est t)))"
    by (simp add: map_of_dict_of)
  with normalize_all_entry [OF run distinct_dict_of, of t] obtain v where
    v: "normalize s b lo8 hi9 t (Prob (fst (est t)), Prob (snd (est t))) = Inr v"
    and res: "map_of result t = Some v"
    by blast
  from assms(2) have look: "map_of (snd b) t = Some (?best t)" "map_of (fst b) t = Some (?worst t)"
    by (simp_all add: bd map_of_dict_of)
  from v excl have
    "(?best t < lo8 \<longrightarrow> v = (Flag False, Flag False)) \<and>
     (hi9 < ?worst t \<longrightarrow> fst v = Flag True \<and>
        (0 < dget (stage_title_losses s) t \<longrightarrow> snd v = Flag False) \<and>
        (\<not> 0 < dget (stage_title_losses s) t \<and> stage_finished s \<longrightarrow> snd v = Flag True))"
    by (auto simp: normalize_def look split: if_splits)
  with res show ?thesis
    by (cases v) (simp add: k8 k9 stage_finished_def)
qed

lemmas stage_defs =
  predict_stage_def remaining_def example_estimate_def stage_example_def game_left_def
  TEAMS10_def example_game_def init_predictor_def dict_of_def stage_standing_def
  bound_team_def sorted_from_end_def normalize_def stage_finished_def dvalues_def dget_def
  less_prod_def less_eq_prod_def Let_def

lemma stage_run:
  "predict_stage TEAMS10 example_estimate stage_example [game_left] =
    Inr [(''A'', Flag True, Prob (1 / 4)), (''B'', Flag True, Flag False),
         (''C'', Flag True, Prob (1 / 4)), (''D'', Flag True, Prob (1 / 4)),
         (''E'', Flag True, Prob (1 / 4)), (''F'', Flag True, Prob (1 / 4)),
         (''G'', Flag True, Prob (1 / 4)), (''H'', Flag True, Prob (1 / 4)),
         (''I'', Flag False, Flag False), (''J'', Flag False, Flag False)]"
  by (simp add: stage_defs)

lemma stage_eliminated:
  "best_standing stage_example (remaining stage_example [game_left]) ''I''
     < kth_largest 8 (worst_standing stage_example (remaining stage_example [game_left])) TEAMS10"
  by (simp add: best_standing_def worst_standing_def kth_largest_def appearances_def stage_defs)

lemma stage_clinched:
  "kth_largest 9 (best_standing stage_example (remaining stage_example [game_left])) TEAMS10
     < worst_standing stage_example (remaining stage_example [game_left]) ''B''"
  by (simp add: best_standing_def worst_standing_def kth_largest_def appearances_def stage_defs)

text \<open>
  The theorem in the example stage: team I cannot reach the top eight any more, team B
  cannot leave it and has a title loss.
\<close>

theorem predict_stage_forces_certain_outcomes_witness:
  "predict_stage TEAMS10 example_estimate stage_example [game_left] =
    Inr [(''A'', Flag True, Prob (1 / 4)), (''B'', Flag True, Flag False),
         (''C'', Flag True, Prob (1 / 4)), (''D'', Flag True, Prob (1 / 4)),
         (''E'', Flag True, Prob (1 / 4)), (''F'', Flag True, Prob (1 / 4)),
         (''G'', Flag True, Prob (1 / 4)), (''H'', Flag True, Prob (1 / 4)),
         (''I'', Flag False, Flag False), (''J'', Flag False, Flag False)] \<and>
   ''I'' \<in> set TEAMS10 \<and> ''B'' \<in> set TEAMS10 \<and>
   best_standing stage_example (remaining stage_example [game_left]) ''I''
     < kth_largest 8 (worst_standing stage_example (remaining stage_example [game_left])) TEAMS10 \<and>
   kth_largest 9 (best_standing stage_example (remaining stage_example [game_left])) TEAMS10
     < worst_standing stage_example (remaining stage_example [game_left]) ''B'' \<and>
   0 < dget (stage_title_losses stage_example) ''B'' \<and>
   (\<exists>p_title p_top1.
      map_of (projr (predict_stage TEAMS10 example_estimate stage_example [game_left])) ''I'' =
        Some (p_title, p_top1) \<and> p_title = Flag False \<and> p_top1 = Flag False) \<and>
   (\<exists>p_title p_top1.
      map_of (projr (predict_stage TEAMS10 example_estimate stage_example [game_left])) ''B'' =
        Some (p_title, p_top1) \<and> p_title = Flag True \<and> p_top1 = Flag False)"
proof -
  have i: "''I'' \<in> set TEAMS10" and b: "''B'' \<in> set TEAMS10"
    by (simp_all add: TEAMS10_def)
  have l: "0 < dget (stage_title_losses stage_example) ''B''"
    by (simp add: stage_example_def dget_def)
  from predict_stage_forces_certain_outcomes [OF stage_run i]
    predict_stage_forces_certain_outcomes [OF stage_run b]
    stage_run i b l stage_eliminated stage_clinched
  show ?thesis
    by (simp del: map_of.simps)
qed

end
